theory Spec2Isabelle
  imports Complex_Main "HOL-Library.Sublist"
begin

section \<open>JavaScript values\<close>

text \<open>
  A JavaScript string is a sequence of UTF-16 code units; a code unit is modelled as a
  natural number and an ASCII literal is written \<open>js ''...''\<close>.

  A JavaScript number is a NaN, an infinity or a finite double, kept as the real it
  denotes. Every operation that produces a number rounds its exact result with
  \<open>to_number\<close>: to the nearest double, ties to the even significand, and to an infinity
  beyond the range. The sign of zero is not modelled.
\<close>

type_synonym jsstring = "nat list"

definition js :: "string \<Rightarrow> jsstring" where
  "js s = map of_char s"

datatype jsnum = NaN | Fin real | PosInf | NegInf

text \<open>
  The binary exponent of a magnitude \<open>a\<close>: the largest \<open>e\<close> between -1022 and 1023 with
  \<open>2^e \<le> a\<close>, and -1022 for the subnormal range and zero. The search tries 1023 first.
\<close>

fun search_exponent :: "real \<Rightarrow> nat \<Rightarrow> int" where
  "search_exponent a 0 = - 1022"
| "search_exponent a (Suc n) =
     (if 2 powi (int n - 1021) \<le> a then int n - 1021 else search_exponent a n)"

definition binary_exponent :: "real \<Rightarrow> int" where
  "binary_exponent a = search_exponent a 2045"

definition round_half_even :: "real \<Rightarrow> int" where
  "round_half_even y =
     (let f = \<lfloor>y\<rfloor>
      in if y - of_int f < 1 / 2 then f
         else if 1 / 2 < y - of_int f then f + 1
         else if even f then f else f + 1)"

text \<open>
  The Number value of a real: the multiple of the spacing \<open>2^(e - 52)\<close> of doubles at
  its exponent that is nearest to it, an infinity when that multiple reaches \<open>2^1024\<close>.
\<close>

definition to_number :: "real \<Rightarrow> jsnum" where
  "to_number x =
     (let q = 2 powi (binary_exponent \<bar>x\<bar> - 52);
          r = of_int (round_half_even (x / q)) * q
      in if 2 ^ 1024 \<le> r then PosInf
         else if r \<le> - (2 ^ 1024) then NegInf
         else Fin r)"

fun num_add :: "jsnum \<Rightarrow> jsnum \<Rightarrow> jsnum" where
  "num_add NaN _ = NaN"
| "num_add _ NaN = NaN"
| "num_add (Fin a) (Fin b) = to_number (a + b)"
| "num_add PosInf NegInf = NaN"
| "num_add NegInf PosInf = NaN"
| "num_add PosInf _ = PosInf"
| "num_add _ PosInf = PosInf"
| "num_add NegInf _ = NegInf"
| "num_add _ NegInf = NegInf"

text \<open>Division by a positive finite constant (the code divides by 60, 3600 and 1000 only).\<close>

fun num_div_const :: "jsnum \<Rightarrow> real \<Rightarrow> jsnum" where
  "num_div_const NaN c = NaN"
| "num_div_const (Fin a) c = to_number (a / c)"
| "num_div_const PosInf c = PosInf"
| "num_div_const NegInf c = NegInf"

fun num_neg :: "jsnum \<Rightarrow> jsnum" where
  "num_neg NaN = NaN"
| "num_neg (Fin a) = Fin (- a)"
| "num_neg PosInf = NegInf"
| "num_neg NegInf = PosInf"

text \<open>
  The values that flow through the pipeline. \<open>JObject\<close> stands for any object or array
  (an opaque provider payload, a rational-number array of the decoder); it is truthy and
  has no \<open>split\<close> method.
\<close>

datatype jsval = JUndefined | JNull | JBool bool | JNum jsnum | JStr jsstring | JObject

fun truthy :: "jsval \<Rightarrow> bool" where
  "truthy JUndefined = False"
| "truthy JNull = False"
| "truthy (JBool b) = b"
| "truthy (JNum n) = (n \<noteq> NaN \<and> n \<noteq> Fin 0)"
| "truthy (JStr s) = (s \<noteq> [])"
| "truthy JObject = True"

text \<open>Reading a property that may be absent gives \<open>undefined\<close>.\<close>

fun get_prop :: "jsval option \<Rightarrow> jsval" where
  "get_prop None = JUndefined"
| "get_prop (Some v) = v"

text \<open>Thrown values: an error kind with its message.\<close>

datatype exn = Error jsstring | TypeError jsstring | RangeError jsstring

fun message :: "exn \<Rightarrow> jsstring" where
  "message (Error m) = m"
| "message (TypeError m) = m"
| "message (RangeError m) = m"

text \<open>\<open>try { body } catch (error) { handler }\<close>: \<open>Inl\<close> is a throw.\<close>

definition try_catch :: "exn + 'a \<Rightarrow> (exn \<Rightarrow> exn + 'a) \<Rightarrow> exn + 'a" where
  "try_catch body handler = (case body of Inl e \<Rightarrow> handler e | Inr v \<Rightarrow> Inr v)"

section \<open>Character classes and number parsing\<close>

definition is_digit :: "nat \<Rightarrow> bool" where
  "is_digit c = (48 \<le> c \<and> c \<le> 57)"

text \<open>The class \<open>\w\<close> of a regular expression without the unicode flag.\<close>

definition is_word :: "nat \<Rightarrow> bool" where
  "is_word c = (is_digit c \<or> (65 \<le> c \<and> c \<le> 90) \<or> (97 \<le> c \<and> c \<le> 122) \<or> c = 95)"

text \<open>White space and line terminators, as skipped by \<open>parseFloat\<close> and \<open>parseInt\<close>.\<close>

definition is_space :: "nat \<Rightarrow> bool" where
  "is_space c = (c \<in> {9, 10, 11, 12, 13, 32, 160, 5760, 8232, 8233, 8239, 8287, 12288, 65279}
     \<or> (8192 \<le> c \<and> c \<le> 8202))"

definition digits_val :: "jsstring \<Rightarrow> nat" where
  "digits_val ds = foldl (\<lambda>a c. 10 * a + (c - 48)) 0 ds"

text \<open>
  The exact value \<open>m * 10^k\<close> of a decimal literal with mantissa digits \<open>m\<close>; the literal
  denotes the Number value of it.
\<close>

definition scale10 :: "nat \<Rightarrow> int \<Rightarrow> real" where
  "scale10 m k = (if 0 \<le> k then real m * 10 ^ nat k else real m / 10 ^ nat (- k))"

text \<open>
  \<open>ExponentPart\<close>: \<open>e\<close> or \<open>E\<close>, an optional sign, at least one digit. Gives the
  exponent, 0 when there is no exponent part.
\<close>

definition exponent_part :: "jsstring \<Rightarrow> int" where
  "exponent_part s =
     (case s of
        [] \<Rightarrow> 0
      | c # t \<Rightarrow>
          if c = 101 \<or> c = 69 then
            (case t of
               [] \<Rightarrow> 0
             | d # u \<Rightarrow>
                 if d = 43 \<and> takeWhile is_digit u \<noteq> [] then int (digits_val (takeWhile is_digit u))
                 else if d = 45 \<and> takeWhile is_digit u \<noteq> [] then - int (digits_val (takeWhile is_digit u))
                 else if takeWhile is_digit t \<noteq> [] then int (digits_val (takeWhile is_digit t))
                 else 0)
          else 0)"

text \<open>
  The longest prefix that is a \<open>StrUnsignedDecimalLiteral\<close>: \<open>Infinity\<close>, or digits with an
  optional fraction and exponent, or a dot followed by digits. NaN when there is none,
  else the Number value of the literal.
\<close>

definition unsigned_literal :: "jsstring \<Rightarrow> jsnum" where
  "unsigned_literal s =
     (if prefix (js ''Infinity'') s then PosInf
      else
        (let ip = takeWhile is_digit s; r = dropWhile is_digit s
         in case r of
              c # t \<Rightarrow>
                if c = 46 then
                  (let fp = takeWhile is_digit t; r' = dropWhile is_digit t
                   in if ip = [] \<and> fp = [] then NaN
                      else to_number (scale10 (digits_val (ip @ fp)) (exponent_part r' - int (length fp))))
                else if ip = [] then NaN
                else to_number (scale10 (digits_val ip) (exponent_part r))
            | [] \<Rightarrow> if ip = [] then NaN else to_number (scale10 (digits_val ip) 0)))"

definition parseFloat :: "jsstring \<Rightarrow> jsnum" where
  "parseFloat s =
     (case dropWhile is_space s of
        [] \<Rightarrow> NaN
      | c # t \<Rightarrow>
          if c = 45 then num_neg (unsigned_literal t)
          else if c = 43 then unsigned_literal t
          else unsigned_literal (c # t))"

text \<open>An array element that may be out of range; \<open>ToString(undefined)\<close> is "undefined".\<close>

definition nth_opt :: "'a list \<Rightarrow> nat \<Rightarrow> 'a option" where
  "nth_opt xs i = (if i < length xs then Some (xs ! i) else None)"

fun to_string_arg :: "jsstring option \<Rightarrow> jsstring" where
  "to_string_arg None = js ''undefined''"
| "to_string_arg (Some s) = s"

section \<open>exif-utils: convertDMSToDecimal\<close>

text \<open>The separator class \<open>[^\d\w\.]\<close>.\<close>

definition is_sep :: "nat \<Rightarrow> bool" where
  "is_sep c = (\<not> (is_digit c \<or> is_word c \<or> c = 46))"

text \<open>
  \<open>dms.split(/[^\d\w\.]+/)\<close>: the pieces between the maximal runs of separator
  characters; a leading or trailing run gives an empty first or last piece, and a string
  with no separator is returned whole.
\<close>

function split_dms :: "jsstring \<Rightarrow> jsstring list" where
  "split_dms s =
     (case dropWhile (\<lambda>c. \<not> is_sep c) s of
        [] \<Rightarrow> [s]
      | c # r \<Rightarrow> takeWhile (\<lambda>c. \<not> is_sep c) s # split_dms (dropWhile is_sep r))"
  by pat_completeness auto
termination
proof (relation "measure length")
  show "wf (measure length)" by simp
next
  fix s :: jsstring and c r
  assume "dropWhile (\<lambda>c. \<not> is_sep c) s = c # r"
  then have "length r < length s"
    by (metis length_dropWhile_le length_Cons less_Suc_eq_le not_less_eq)
  moreover have "length (dropWhile is_sep r) \<le> length r"
    by (rule length_dropWhile_le)
  ultimately show "(dropWhile is_sep r, s) \<in> measure length" by simp
qed

declare split_dms.simps [simp del]

definition convertDMSToDecimal_body :: "jsval \<Rightarrow> exn + jsval" where
  "convertDMSToDecimal_body dms =
     (case dms of
        JStr s \<Rightarrow>
          (let parts = split_dms s;
               degrees = parseFloat (to_string_arg (nth_opt parts 0));
               minutes = parseFloat (to_string_arg (nth_opt parts 1));
               seconds = parseFloat (to_string_arg (nth_opt parts 2));
               direction = nth_opt parts 3;
               decimal = num_add (num_add degrees (num_div_const minutes 60)) (num_div_const seconds 3600)
           in Inr (JNum (if direction = Some (js ''S'') \<or> direction = Some (js ''W'')
                         then num_neg decimal else decimal)))
      | _ \<Rightarrow> Inl (TypeError (js ''dms.split is not a function'')))"

definition convertDMSToDecimal :: "jsval \<Rightarrow> exn + jsval" where
  "convertDMSToDecimal dms = try_catch (convertDMSToDecimal_body dms) (\<lambda>error. Inr JNull)"

section \<open>exif-utils: extractExifData\<close>

text \<open>\<open>a; b\<close> inside a function body: a throw in \<open>a\<close> skips \<open>b\<close>.\<close>

definition bind_exn :: "exn + 'a \<Rightarrow> ('a \<Rightarrow> exn + 'b) \<Rightarrow> exn + 'b" where
  "bind_exn m f = (case m of Inl e \<Rightarrow> Inl e | Inr v \<Rightarrow> f v)"

text \<open>\<open>s.includes(p)\<close>\<close>

fun str_includes :: "jsstring \<Rightarrow> jsstring \<Rightarrow> bool" where
  "str_includes [] p = (p = [])"
| "str_includes (c # cs) p = (prefix p (c # cs) \<or> str_includes cs p)"

text \<open>
  A decoded tag has a \<open>description\<close> and a \<open>value\<close>; the decoder's result maps tag names
  to tags. The decoder itself (\<open>ExifReader.load\<close> on the file's bytes) is outside the
  repository: its outcome, a throw or a tag set, is the argument of \<open>extractExifData\<close>.
\<close>

record tag =
  description :: jsval
  tvalue :: jsval

type_synonym tags = "string \<rightharpoonup> tag"

record gps_rec =
  latitude :: jsval
  longitude :: jsval
  latitudeDecimal :: "jsval option"
  longitudeDecimal :: "jsval option"

record dimensions_rec =
  width :: jsval
  height :: jsval

text \<open>The object \<open>exifData\<close>; \<open>None\<close> is a property that was never assigned.\<close>

record exif_rec =
  dateTimeOriginal :: "jsval option"
  dateTime :: "jsval option"
  gps :: "gps_rec option"
  exif_make :: "jsval option"
  exif_model :: "jsval option"
  dimensions :: "dimensions_rec option"

definition empty_exif :: exif_rec where
  "empty_exif = \<lparr>dateTimeOriginal = None, dateTime = None, gps = None, exif_make = None,
     exif_model = None, dimensions = None\<rparr>"

definition typeof_string :: "jsval \<Rightarrow> bool" where
  "typeof_string v = (case v of JStr s \<Rightarrow> True | _ \<Rightarrow> False)"

definition set_date_fields :: "tags \<Rightarrow> exif_rec \<Rightarrow> exif_rec" where
  "set_date_fields t d =
     (case t ''DateTimeOriginal'' of
        Some x \<Rightarrow> d\<lparr>dateTimeOriginal := Some (description x)\<rparr>
      | None \<Rightarrow>
          (case t ''DateTime'' of
             Some y \<Rightarrow> d\<lparr>dateTime := Some (description y)\<rparr>
           | None \<Rightarrow> d))"

definition set_gps_fields :: "tags \<Rightarrow> exif_rec \<Rightarrow> exn + exif_rec" where
  "set_gps_fields t d =
     (case (t ''GPSLatitude'', t ''GPSLongitude'') of
        (Some la, Some lo) \<Rightarrow>
          (let g = \<lparr>latitude = description la, longitude = description lo,
                    latitudeDecimal = None, longitudeDecimal = None\<rparr>
           in if typeof_string (latitude g)
                 \<and> (case latitude g of JStr s \<Rightarrow> str_includes s (js ''deg'') | _ \<Rightarrow> False)
              then
                bind_exn (convertDMSToDecimal (latitude g)) (\<lambda>lad.
                bind_exn (convertDMSToDecimal (longitude g)) (\<lambda>lod.
                  Inr (d\<lparr>gps := Some (g\<lparr>latitudeDecimal := Some lad, longitudeDecimal := Some lod\<rparr>)\<rparr>)))
              else Inr (d\<lparr>gps := Some g\<rparr>))
      | _ \<Rightarrow> Inr d)"

definition set_camera_fields :: "tags \<Rightarrow> exif_rec \<Rightarrow> exif_rec" where
  "set_camera_fields t d =
     (let d1 = (case t ''Make'' of Some x \<Rightarrow> d\<lparr>exif_make := Some (description x)\<rparr> | None \<Rightarrow> d);
          d2 = (case t ''Model'' of Some x \<Rightarrow> d1\<lparr>exif_model := Some (description x)\<rparr> | None \<Rightarrow> d1)
      in case (t ''ImageWidth'', t ''ImageHeight'') of
           (Some w, Some h) \<Rightarrow> d2\<lparr>dimensions := Some \<lparr>width = tvalue w, height = tvalue h\<rparr>\<rparr>
         | _ \<Rightarrow> d2)"

definition extractExifData_body :: "exn + tags \<Rightarrow> exn + exif_rec option" where
  "extractExifData_body loaded =
     bind_exn loaded (\<lambda>t.
     bind_exn (set_gps_fields t (set_date_fields t empty_exif)) (\<lambda>d.
       Inr (Some (set_camera_fields t d))))"

definition extractExifData :: "exn + tags \<Rightarrow> exn + exif_rec option" where
  "extractExifData loaded = try_catch (extractExifData_body loaded) (\<lambda>error. Inr None)"

section \<open>exif-utils: extractGPSCoordinates\<close>

record coords =
  lat :: jsval
  lon :: jsval

text \<open>
  The argument is \<open>null\<close> (\<open>None\<close>) or an object built by \<open>extractExifData\<close>; reading a
  property of \<open>null\<close> throws a TypeError.
\<close>

definition extractGPSCoordinates_body :: "exif_rec option \<Rightarrow> exn + coords option" where
  "extractGPSCoordinates_body exifData =
     (case exifData of
        None \<Rightarrow> Inl (TypeError (js ''Cannot read properties of null''))
      | Some d \<Rightarrow>
          (case gps d of
             None \<Rightarrow> Inr None
           | Some g \<Rightarrow>
               if truthy (get_prop (latitudeDecimal g)) \<and> truthy (get_prop (longitudeDecimal g))
               then Inr (Some \<lparr>lat = get_prop (latitudeDecimal g), lon = get_prop (longitudeDecimal g)\<rparr>)
               else Inr None))"

definition extractGPSCoordinates :: "exif_rec option \<Rightarrow> exn + coords option" where
  "extractGPSCoordinates exifData =
     try_catch (extractGPSCoordinates_body exifData) (\<lambda>error. Inr None)"

section \<open>exif-utils: extractDateTime\<close>

text \<open>\<open>s.split(c)\<close> with a one-character string separator: every occurrence splits.\<close>

fun split_on :: "nat \<Rightarrow> jsstring \<Rightarrow> jsstring list" where
  "split_on sep [] = [[]]"
| "split_on sep (c # cs) =
     (if c = sep then [] # split_on sep cs
      else (case split_on sep cs of p # ps \<Rightarrow> (c # p) # ps | [] \<Rightarrow> [[c]]))"

definition is_hex_digit :: "nat \<Rightarrow> bool" where
  "is_hex_digit c = (is_digit c \<or> (65 \<le> c \<and> c \<le> 70) \<or> (97 \<le> c \<and> c \<le> 102))"

definition hex_val :: "jsstring \<Rightarrow> nat" where
  "hex_val ds = foldl (\<lambda>a c. 16 * a + (if is_digit c then c - 48 else if c \<le> 70 then c - 55 else c - 87)) 0 ds"

text \<open>
  \<open>parseInt(s)\<close> with no radix: white space is skipped, a sign is read, a \<open>0x\<close> or \<open>0X\<close>
  prefix selects base 16, and the longest run of digits of the base is read; the result is
  the Number value of that integer, NaN when the run is empty.
\<close>

definition parseInt :: "jsstring \<Rightarrow> jsnum" where
  "parseInt s =
     (let t = dropWhile is_space s;
          negative = (case t of c # u \<Rightarrow> c = 45 | [] \<Rightarrow> False);
          t1 = (case t of c # u \<Rightarrow> if c = 45 \<or> c = 43 then u else t | [] \<Rightarrow> []);
          hex = (case t1 of a # b # u \<Rightarrow> a = 48 \<and> (b = 120 \<or> b = 88) | _ \<Rightarrow> False);
          ds = (if hex then takeWhile is_hex_digit (drop 2 t1) else takeWhile is_digit t1);
          v = (if hex then hex_val ds else digits_val ds)
      in if ds = [] then NaN
         else if negative then to_number (- real v) else to_number (real v))"

text \<open>
  A \<open>Date\<close> built by \<open>new Date(year, monthIndex, day, hours, minutes, seconds)\<close> is kept as
  its six arguments. Its time value depends on the local time zone and is supplied by the
  environment (\<open>get_time\<close>, NaN for an invalid date).
\<close>

datatype jsdate = LocalDate jsnum jsnum jsnum jsnum jsnum jsnum

text \<open>
  The two branches of \<open>extractDateTime\<close> run the same statements on
  \<open>exifData.dateTimeOriginal\<close> and on \<open>exifData.dateTime\<close>. A value that is not a string
  has no \<open>split\<close> method; a missing time part is \<open>undefined\<close>, and \<open>undefined.split\<close>
  throws.
\<close>

definition date_from_description :: "jsval \<Rightarrow> exn + jsdate" where
  "date_from_description v =
     (case v of
        JStr s \<Rightarrow>
          (let parts = split_on 32 s;
               datePart = to_string_arg (nth_opt parts 0);
               timePart = nth_opt parts 1;
               ymd = split_on 58 datePart
           in case timePart of
                None \<Rightarrow> Inl (TypeError (js ''Cannot read properties of undefined''))
              | Some tp \<Rightarrow>
                  (let hms = split_on 58 tp
                   in Inr (LocalDate
                        (parseInt (to_string_arg (nth_opt ymd 0)))
                        (num_add (parseInt (to_string_arg (nth_opt ymd 1))) (Fin (- 1)))
                        (parseInt (to_string_arg (nth_opt ymd 2)))
                        (parseInt (to_string_arg (nth_opt hms 0)))
                        (parseInt (to_string_arg (nth_opt hms 1)))
                        (parseInt (to_string_arg (nth_opt hms 2))))))
      | _ \<Rightarrow> Inl (TypeError (js ''split is not a function'')))"

definition extractDateTime_body :: "exif_rec option \<Rightarrow> exn + jsdate option" where
  "extractDateTime_body exifData =
     (case exifData of
        None \<Rightarrow> Inl (TypeError (js ''Cannot read properties of null''))
      | Some d \<Rightarrow>
          if truthy (get_prop (dateTimeOriginal d)) then
            bind_exn (date_from_description (get_prop (dateTimeOriginal d))) (\<lambda>x. Inr (Some x))
          else if truthy (get_prop (dateTime d)) then
            bind_exn (date_from_description (get_prop (dateTime d))) (\<lambda>x. Inr (Some x))
          else Inr None)"

definition extractDateTime :: "exif_rec option \<Rightarrow> exn + jsdate option" where
  "extractDateTime exifData = try_catch (extractDateTime_body exifData) (\<lambda>error. Inr None)"

section \<open>external-apis\<close>

text \<open>
  The module reads its two credentials from the process environment when it is loaded and
  keeps them in constants. Loading never throws.
\<close>

record api_config =
  OPENWEATHER_API_KEY :: jsval
  GOOGLE_MAPS_API_KEY :: jsval

definition env_var :: "(string \<rightharpoonup> jsstring) \<Rightarrow> string \<Rightarrow> jsval" where
  "env_var process_env k = (case process_env k of None \<Rightarrow> JUndefined | Some s \<Rightarrow> JStr s)"

definition load_external_apis :: "(string \<rightharpoonup> jsstring) \<Rightarrow> exn + api_config" where
  "load_external_apis process_env =
     Inr \<lparr>OPENWEATHER_API_KEY = env_var process_env ''OPENWEATHER_API_KEY'',
          GOOGLE_MAPS_API_KEY = env_var process_env ''GOOGLE_MAPS_API_KEY''\<rparr>"

text \<open>
  The HTTP client is a parameter: \<open>weather_api lat lon dt appid\<close> is the outcome of the
  \<open>axios.get\<close> call, a throw (network error, error status, timeout) or \<open>response.data\<close>.
\<close>

definition getWeatherData ::
  "api_config \<Rightarrow> (jsval \<Rightarrow> jsval \<Rightarrow> jsnum \<Rightarrow> jsval \<Rightarrow> exn + jsval) \<Rightarrow> jsval \<Rightarrow> jsval \<Rightarrow> jsnum \<Rightarrow> exn + jsval" where
  "getWeatherData cfg weather_api lat' lon' timestamp =
     (if \<not> truthy (OPENWEATHER_API_KEY cfg) then Inl (Error (js ''Missing OpenWeather API key''))
      else try_catch
             (bind_exn (weather_api lat' lon' timestamp (OPENWEATHER_API_KEY cfg)) (\<lambda>data. Inr data))
             (\<lambda>error. Inr JNull))"

text \<open>
  The body of a geocoding response: \<open>status\<close> and \<open>results\<close> (\<open>None\<close> when the field is not
  an array, so that reading its \<open>length\<close> throws).
\<close>

record geocode_data =
  status :: jsval
  results :: "jsval list option"

definition first_result :: "geocode_data \<Rightarrow> exn + jsval" where
  "first_result data =
     (if status data = JStr (js ''OK'') then
        (case results data of
           None \<Rightarrow> Inl (TypeError (js ''Cannot read properties of undefined''))
         | Some rs \<Rightarrow> if 0 < length rs then Inr (rs ! 0) else Inr JNull)
      else Inr JNull)"

definition getLocationFromCoordinates ::
  "api_config \<Rightarrow> (jsval \<Rightarrow> jsval \<Rightarrow> jsval \<Rightarrow> exn + geocode_data) \<Rightarrow> jsval \<Rightarrow> jsval \<Rightarrow> exn + jsval" where
  "getLocationFromCoordinates cfg geocode_api lat' lon' =
     (if \<not> truthy (GOOGLE_MAPS_API_KEY cfg) then Inl (Error (js ''Missing Google Maps API key''))
      else try_catch
             (bind_exn (geocode_api lat' lon' (GOOGLE_MAPS_API_KEY cfg)) first_result)
             (\<lambda>error. Inr JNull))"

subsection \<open>extractLocationFromDescription\<close>

text \<open>
  \<open>description.match(/(\d+)F/i)\<close>: the leftmost position where a maximal run of digits is
  followed by \<open>F\<close> or \<open>f\<close>; the captured group is the run. (A shorter run would have to be
  followed by a digit, so only the maximal run can match.)
\<close>

fun floorMatch :: "jsstring \<Rightarrow> jsstring option" where
  "floorMatch [] = None"
| "floorMatch (c # cs) =
     (if takeWhile is_digit (c # cs) \<noteq> []
         \<and> (case dropWhile is_digit (c # cs) of f # r \<Rightarrow> f = 70 \<or> f = 102 | [] \<Rightarrow> False)
      then Some (takeWhile is_digit (c # cs))
      else floorMatch cs)"

definition is_letter :: "nat \<Rightarrow> bool" where
  "is_letter c = ((65 \<le> c \<and> c \<le> 90) \<or> (97 \<le> c \<and> c \<le> 122))"

text \<open>The zone marker, U+5340.\<close>

definition zone_marker :: nat where
  "zone_marker = 21312"

text \<open>
  \<open>description.match(/([A-Z])\<dots>/i)\<close> with the zone marker after the class: the leftmost
  letter, of either case because of the \<open>i\<close> flag, that is followed by the marker.
\<close>

fun zoneMatch :: "jsstring \<Rightarrow> jsstring option" where
  "zoneMatch [] = None"
| "zoneMatch [c] = None"
| "zoneMatch (c # d # cs) =
     (if is_letter c \<and> d = zone_marker then Some [c] else zoneMatch (d # cs))"

record location_hint =
  hint_floor :: jsval
  hint_zone :: jsval
  rawDescription :: jsstring

definition extractLocationFromDescription :: "jsstring \<Rightarrow> location_hint" where
  "extractLocationFromDescription desc =
     (let floor_match = floorMatch desc;
          zone_match = zoneMatch desc
      in \<lparr>hint_floor = (case floor_match of Some g \<Rightarrow> JStr g | None \<Rightarrow> JNull),
          hint_zone = (case zone_match of Some g \<Rightarrow> JStr g | None \<Rightarrow> JNull),
          rawDescription = desc\<rparr>)"

section \<open>The upload page: handleSubmit\<close>

record jsfile =
  name :: jsstring
  bytes :: "nat list"

text \<open>
  The template literal of the storage path, kept as its four parts: project id,
  \<open>Date.now()\<close>, file index and extension.
\<close>

record storage_path_rec =
  path_project :: jsstring
  path_millis :: nat
  path_index :: nat
  path_ext :: jsstring

record photo =
  project_id :: jsstring
  uploaded_by :: jsval
  storage_path :: storage_path_rec
  photo_description :: jsstring
  location_description :: jsstring
  exif_data :: "exif_rec option"
  weather_data :: jsval
  geo_data :: jsval
  taken_at :: jsval
  ai_processed :: bool
  ai_processing_status :: jsstring

text \<open>The component's form state that \<open>handleSubmit\<close> reads.\<close>

record form =
  projectId :: jsstring
  user_id :: jsval
  form_description :: jsstring
  locationDescription :: jsstring

text \<open>
  What the outside world answers while file \<open>i\<close> is processed: the decoder, the two HTTP
  providers, the storage service and the database (\<open>None\<close> is success, \<open>Some m\<close> an error
  object with message \<open>m\<close>), the clock, and the \<open>Date\<close> methods that depend on the local
  time zone.
\<close>

record env =
  config :: api_config
  exif_load :: "nat \<Rightarrow> jsfile \<Rightarrow> exn + tags"
  weather_api :: "nat \<Rightarrow> jsval \<Rightarrow> jsval \<Rightarrow> jsnum \<Rightarrow> jsval \<Rightarrow> exn + jsval"
  geocode_api :: "nat \<Rightarrow> jsval \<Rightarrow> jsval \<Rightarrow> jsval \<Rightarrow> exn + geocode_data"
  storage_upload :: "nat \<Rightarrow> storage_path_rec \<Rightarrow> jsfile \<Rightarrow> jsstring option"
  db_insert :: "nat \<Rightarrow> photo \<Rightarrow> jsstring option"
  date_now :: "nat \<Rightarrow> nat"
  get_time :: "jsdate \<Rightarrow> jsnum"
  iso_string :: "jsdate \<Rightarrow> jsstring"

text \<open>The status line, one constructor for each message the page sets.\<close>

datatype upload_status = Idle | Preparing | Processing nat nat | Uploading nat nat | Complete

text \<open>
  The calls made to the decoder, the storage service and the database, with the file index
  and the argument sent.
\<close>

datatype call = Load nat | Upload nat storage_path_rec | Insert nat photo

fun call_index :: "call \<Rightarrow> nat" where
  "call_index (Load i) = i"
| "call_index (Upload i p) = i"
| "call_index (Insert i r) = i"

text \<open>
  The storage bucket, the \<open>photos\<close> table, the log of calls, and the component's state.
  The progress shown is kept as the exact percentage.
\<close>

record world =
  storage :: "(storage_path_rec \<times> jsfile) list"
  photos :: "photo list"
  calls :: "call list"
  error :: jsval
  isLoading :: bool
  uploadProgress :: real
  uploadStatus :: upload_status
  pushed_route :: "jsstring option"

text \<open>\<open>Math.floor\<close>: the floor of a double is a double.\<close>

fun num_floor :: "jsnum \<Rightarrow> jsnum" where
  "num_floor (Fin a) = Fin (real_of_int \<lfloor>a\<rfloor>)"
| "num_floor n = n"

text \<open>\<open>dateTime.toISOString()\<close> throws a RangeError on an invalid date.\<close>

definition toISOString :: "env \<Rightarrow> jsdate \<Rightarrow> exn + jsval" where
  "toISOString e d =
     (if get_time e d = NaN then Inl (RangeError (js ''Invalid time value''))
      else Inr (JStr (iso_string e d)))"

text \<open>The enrichment block of the loop body: weather when there is a date, then geocoding.\<close>

definition enrich :: "env \<Rightarrow> nat \<Rightarrow> coords option \<Rightarrow> jsdate option \<Rightarrow> exn + jsval \<times> jsval" where
  "enrich e i gpsCoordinates dateTime' =
     (case gpsCoordinates of
        None \<Rightarrow> Inr (JNull, JNull)
      | Some c \<Rightarrow>
          bind_exn
            (case dateTime' of
               Some d \<Rightarrow>
                 getWeatherData (config e) (weather_api e i) (lat c) (lon c)
                   (num_floor (num_div_const (get_time e d) 1000))
             | None \<Rightarrow> Inr JNull)
            (\<lambda>weatherData.
               bind_exn (getLocationFromCoordinates (config e) (geocode_api e i) (lat c) (lon c))
                 (\<lambda>geoData. Inr (weatherData, geoData))))"

text \<open>\<open>file.name.split('.').pop()\<close>\<close>

definition fileExt :: "jsfile \<Rightarrow> jsstring" where
  "fileExt f = last (split_on 46 (name f))"

text \<open>
  The upload and insert block of the loop body. The public URL asked for after the
  upload is not used and has no effect. The record literal, with its call of
  \<open>toISOString\<close>, is evaluated before \<open>insert\<close> is called. The result is the thrown
  value, if any, and the world as the statements left it.
\<close>

definition store_and_persist ::
  "env \<Rightarrow> form \<Rightarrow> nat \<Rightarrow> nat \<Rightarrow> jsfile \<Rightarrow> exif_rec option \<Rightarrow> jsdate option \<Rightarrow> jsval \<Rightarrow> jsval
     \<Rightarrow> world \<Rightarrow> exn option \<times> world" where
  "store_and_persist e fm n i f exifData dateTime' weatherData geoData w =
     (let w1 = w\<lparr>uploadStatus := Uploading (i + 1) n\<rparr>;
          filePath = \<lparr>path_project = projectId fm, path_millis = date_now e i, path_index = i,
                      path_ext = fileExt f\<rparr>;
          w2 = w1\<lparr>calls := calls w1 @ [Upload i filePath]\<rparr>
      in case storage_upload e i filePath f of
           Some m \<Rightarrow> (Some (Error (js ''Error uploading file: '' @ m)), w2)
         | None \<Rightarrow>
             (let w3 = w2\<lparr>storage := storage w2 @ [(filePath, f)]\<rparr>
              in case (case dateTime' of Some d \<Rightarrow> toISOString e d | None \<Rightarrow> Inr JNull) of
                   Inl x \<Rightarrow> (Some x, w3)
                 | Inr taken \<Rightarrow>
                     (let row = \<lparr>project_id = projectId fm, uploaded_by = user_id fm,
                                  storage_path = filePath,
                                  photo_description = form_description fm,
                                  location_description = locationDescription fm,
                                  exif_data = exifData, weather_data = weatherData,
                                  geo_data = geoData, taken_at = taken,
                                  ai_processed = False, ai_processing_status = js ''pending''\<rparr>;
                          w4 = w3\<lparr>calls := calls w3 @ [Insert i row]\<rparr>
                      in case db_insert e i row of
                           Some m \<Rightarrow> (Some (Error (js ''Error saving photo data: '' @ m)), w4)
                         | None \<Rightarrow>
                             (None, w4\<lparr>photos := photos w4 @ [row],
                                       uploadProgress := (real (i + 1) / real n) * 100\<rparr>))))"

text \<open>
  The metadata of a file, as the first statements of the loop body compute it. None of
  the three functions throws; a throw would leave the loop like any other.
\<close>

definition file_metadata :: "env \<Rightarrow> nat \<Rightarrow> jsfile \<Rightarrow> exn + exif_rec option \<times> jsdate option \<times> coords option" where
  "file_metadata e i f =
     bind_exn (extractExifData (exif_load e i f)) (\<lambda>exifData.
     bind_exn (case exifData of Some d \<Rightarrow> extractDateTime exifData | None \<Rightarrow> Inr None) (\<lambda>dateTime'.
     bind_exn (case exifData of Some d \<Rightarrow> extractGPSCoordinates exifData | None \<Rightarrow> Inr None) (\<lambda>gpsCoordinates.
       Inr (exifData, dateTime', gpsCoordinates))))"

text \<open>One iteration of the loop, for file \<open>f\<close> at index \<open>i\<close> of \<open>n\<close>.\<close>

definition ingest_file :: "env \<Rightarrow> form \<Rightarrow> nat \<Rightarrow> nat \<Rightarrow> jsfile \<Rightarrow> world \<Rightarrow> exn option \<times> world" where
  "ingest_file e fm n i f w =
     (let w1 = w\<lparr>uploadStatus := Processing (i + 1) n, calls := calls w @ [Load i]\<rparr>
      in case file_metadata e i f of
           Inl x \<Rightarrow> (Some x, w1)
         | Inr (exifData, dateTime', gpsCoordinates) \<Rightarrow>
             (let hint = extractLocationFromDescription (locationDescription fm)
              in case enrich e i gpsCoordinates dateTime' of
                   Inl x \<Rightarrow> (Some x, w1)
                 | Inr (weatherData, geoData) \<Rightarrow>
                     store_and_persist e fm n i f exifData dateTime' weatherData geoData w1))"

text \<open>The \<open>for\<close> loop from index \<open>i\<close> on: a throw leaves it.\<close>

fun ingest_from :: "env \<Rightarrow> form \<Rightarrow> nat \<Rightarrow> nat \<Rightarrow> jsfile list \<Rightarrow> world \<Rightarrow> exn option \<times> world" where
  "ingest_from e fm n i [] w = (None, w)"
| "ingest_from e fm n i (f # fs) w =
     (case ingest_file e fm n i f w of
        (Some x, w') \<Rightarrow> (Some x, w')
      | (None, w') \<Rightarrow> ingest_from e fm n (i + 1) fs w')"

definition handleSubmit :: "env \<Rightarrow> form \<Rightarrow> jsfile list \<Rightarrow> world \<Rightarrow> world" where
  "handleSubmit e fm files w =
     (if length files = 0 then w\<lparr>error := JStr (js ''Please select at least one photo to upload'')\<rparr>
      else if \<not> truthy (JStr (projectId fm)) then w\<lparr>error := JStr (js ''Please select a project'')\<rparr>
      else
        (let w0 = w\<lparr>isLoading := True, error := JNull, uploadProgress := 0, uploadStatus := Preparing\<rparr>
         in case ingest_from e fm (length files) 0 files w0 of
              (None, w') \<Rightarrow> w'\<lparr>uploadStatus := Complete, pushed_route := Some (projectId fm)\<rparr>
            | (Some err, w') \<Rightarrow>
                w'\<lparr>error := (if truthy (JStr (message err)) then JStr (message err)
                             else JStr (js ''An error occurred during upload'')),
                   isLoading := False\<rparr>))"

section \<open>Notions of the specification\<close>

text \<open>
  The three numeric tokens that \<open>convertDMSToDecimal\<close> reads from a string, and what it
  means for the string to be malformed: a numeric token is missing or is not a number.
\<close>

definition numeric_token :: "jsstring \<Rightarrow> nat \<Rightarrow> jsnum" where
  "numeric_token s i = parseFloat (to_string_arg (nth_opt (split_dms s) i))"

definition malformed_dms :: "jsstring \<Rightarrow> bool" where
  "malformed_dms s =
     (numeric_token s 0 = NaN \<or> numeric_token s 1 = NaN \<or> numeric_token s 2 = NaN)"

text \<open>
  A decimal numeral: an integer part \<open>ip\<close> of at least one digit and a fraction \<open>fp\<close>,
  written after a dot when it is not empty. Its value is the integer part plus the
  fraction scaled down.
\<close>

definition well_formed_numeral :: "jsstring \<Rightarrow> jsstring \<Rightarrow> bool" where
  "well_formed_numeral ip fp = (ip \<noteq> [] \<and> list_all is_digit ip \<and> list_all is_digit fp)"

definition decimal_numeral :: "jsstring \<Rightarrow> jsstring \<Rightarrow> jsstring" where
  "decimal_numeral ip fp = (if fp = [] then ip else ip @ 46 # fp)"

definition numeral_val :: "jsstring \<Rightarrow> jsstring \<Rightarrow> real" where
  "numeral_val ip fp = real (digits_val ip) + real (digits_val fp) / 10 ^ length fp"

text \<open>The number that a numeral denotes in the program: the double nearest to its value.\<close>

definition numeral_number :: "jsstring \<Rightarrow> jsstring \<Rightarrow> jsnum" where
  "numeral_number ip fp = to_number (numeral_val ip fp)"

text \<open>What may follow a numeral without being read as part of it.\<close>

definition ends_literal :: "jsstring \<Rightarrow> bool" where
  "ends_literal r =
     (case r of [] \<Rightarrow> True | c # t \<Rightarrow> \<not> is_digit c \<and> c \<noteq> 46 \<and> c \<noteq> 101 \<and> c \<noteq> 69)"

text \<open>
  The format of the comment in \<open>convertDMSToDecimal\<close>, \<open>51deg 30' 35.66" N\<close>: the degrees
  with \<open>deg\<close> attached, a space, the minutes, an apostrophe (39) and a space, the seconds,
  a double quote (34) and a space, the hemisphere letter.
\<close>

definition dms_string :: "jsstring \<Rightarrow> jsstring \<Rightarrow> jsstring \<Rightarrow> nat \<Rightarrow> jsstring" where
  "dms_string D M S H = D @ js ''deg '' @ M @ [39, 32] @ S @ [34, 32] @ [H]"

text \<open>\<open>d + m / 60 + s / 3600\<close>, in the arithmetic of JavaScript numbers.\<close>

definition dms_value :: "jsnum \<Rightarrow> jsnum \<Rightarrow> jsnum \<Rightarrow> jsnum" where
  "dms_value d m s = num_add (num_add d (num_div_const m 60)) (num_div_const s 3600)"

text \<open>None of the tags that \<open>extractExifData\<close> reads is there to be used.\<close>

definition no_relevant_tags :: "tags \<Rightarrow> bool" where
  "no_relevant_tags t =
     (t ''DateTimeOriginal'' = None \<and> t ''DateTime'' = None
      \<and> (t ''GPSLatitude'' = None \<or> t ''GPSLongitude'' = None)
      \<and> t ''Make'' = None \<and> t ''Model'' = None
      \<and> (t ''ImageWidth'' = None \<or> t ''ImageHeight'' = None))"

text \<open>
  The message of the error that \<open>handleSubmit\<close> throws when the call \<open>c\<close>, made for the
  file \<open>f\<close>, comes back with an error object; \<open>None\<close> when the call succeeded.
\<close>

definition call_failure :: "env \<Rightarrow> jsfile \<Rightarrow> call \<Rightarrow> jsstring option" where
  "call_failure e f c =
     (case c of
        Load i \<Rightarrow> None
      | Upload i p \<Rightarrow> map_option (\<lambda>m. js ''Error uploading file: '' @ m) (storage_upload e i p f)
      | Insert i row \<Rightarrow> map_option (\<lambda>m. js ''Error saving photo data: '' @ m) (db_insert e i row))"

text \<open>The calls and the rows that a run added to a world.\<close>

definition new_calls :: "world \<Rightarrow> world \<Rightarrow> call list" where
  "new_calls w w' = drop (length (calls w)) (calls w')"

definition new_photos :: "world \<Rightarrow> world \<Rightarrow> photo list" where
  "new_photos w w' = drop (length (photos w)) (photos w')"

text \<open>
  What one iteration of the loop leaves behind, for file \<open>f\<close> at index \<open>i\<close>: the calls
  \<open>cs\<close> it made are all for \<open>i\<close>; a call that came back with an error is what the
  iteration threw; and a row was added, for \<open>i\<close> and with status \<open>pending\<close>, exactly
  when nothing was thrown.
\<close>

definition file_outcome :: "env \<Rightarrow> jsfile \<Rightarrow> nat \<Rightarrow> exn option \<Rightarrow> call list \<Rightarrow> photo list \<Rightarrow> bool" where
  "file_outcome e f i r cs rows =
     ((\<forall>c\<in>set cs. call_index c = i)
      \<and> (\<forall>c\<in>set cs. \<forall>msg. call_failure e f c = Some msg \<longrightarrow> r = Some (Error msg))
      \<and> (case r of
            None \<Rightarrow> \<exists>row. rows = [row] \<and> path_index (storage_path row) = i
                       \<and> ai_processing_status row = js ''pending''
          | Some x \<Rightarrow> rows = []))"

text \<open>
  The same for the loop from index \<open>i0\<close> on: the rows added are for the indices from
  \<open>i0\<close> upwards, in order; no call is for an index beyond the first file without a row;
  and a call that came back with an error is for that file and is what the loop threw.
\<close>

definition batch_outcome :: "env \<Rightarrow> jsfile list \<Rightarrow> nat \<Rightarrow> exn option \<Rightarrow> call list \<Rightarrow> photo list \<Rightarrow> bool" where
  "batch_outcome e fs i0 r cs rows =
     (map (\<lambda>row. path_index (storage_path row)) rows = [i0..<i0 + length rows]
      \<and> length rows \<le> length fs
      \<and> (\<forall>c\<in>set cs. i0 \<le> call_index c \<and> call_index c \<le> i0 + length rows)
      \<and> (\<forall>c\<in>set cs. \<forall>msg. call_failure e (fs ! (call_index c - i0)) c = Some msg
            \<longrightarrow> r = Some (Error msg) \<and> call_index c = i0 + length rows
                \<and> call_index c < i0 + length fs))"

subsection \<open>Sample inputs\<close>

definition no_tags :: tags where
  "no_tags = Map.empty"

definition tags_deg_only :: tags where
  "tags_deg_only =
     [''GPSLatitude'' \<mapsto> \<lparr>description = JStr (js ''deg''), tvalue = JObject\<rparr>,
      ''GPSLongitude'' \<mapsto> \<lparr>description = JStr (js ''x''), tvalue = JObject\<rparr>]"

definition tags_numeric_longitude :: tags where
  "tags_numeric_longitude =
     [''GPSLatitude'' \<mapsto> \<lparr>description = JStr (js ''51deg 30' 0\" N''), tvalue = JObject\<rparr>,
      ''GPSLongitude'' \<mapsto> \<lparr>description = JNum (Fin 3), tvalue = JObject\<rparr>]"

definition exif_equator :: exif_rec where
  "exif_equator =
     empty_exif\<lparr>gps := Some \<lparr>latitude = JStr (js ''0deg 0' 0\" N''),
                               longitude = JStr (js ''103deg 30' 0\" E''),
                               latitudeDecimal = Some (JNum (Fin 0)),
                               longitudeDecimal = Some (JNum (Fin 103.5))\<rparr>\<rparr>"

definition tags_london :: tags where
  "tags_london =
     [''DateTimeOriginal'' \<mapsto> \<lparr>description = JStr (js ''2024:03:15 10:30:00''), tvalue = JObject\<rparr>,
      ''GPSLatitude'' \<mapsto> \<lparr>description = JStr (js ''51deg 30' 0\" N''), tvalue = JObject\<rparr>,
      ''GPSLongitude'' \<mapsto> \<lparr>description = JStr (js ''0deg 15' 0\" W''), tvalue = JObject\<rparr>]"

definition no_credentials :: "string \<rightharpoonup> jsstring" where
  "no_credentials = Map.empty"

definition no_keys :: api_config where
  "no_keys = \<lparr>OPENWEATHER_API_KEY = JUndefined, GOOGLE_MAPS_API_KEY = JUndefined\<rparr>"

definition weather_key_only :: api_config where
  "weather_key_only = \<lparr>OPENWEATHER_API_KEY = JStr (js ''k1''), GOOGLE_MAPS_API_KEY = JUndefined\<rparr>"

definition both_keys :: api_config where
  "both_keys = \<lparr>OPENWEATHER_API_KEY = JStr (js ''k1''), GOOGLE_MAPS_API_KEY = JStr (js ''k2'')\<rparr>"

definition weather_answers :: "jsval \<Rightarrow> jsval \<Rightarrow> jsnum \<Rightarrow> jsval \<Rightarrow> exn + jsval" where
  "weather_answers la lo dt appid = Inr JObject"

definition weather_times_out :: "jsval \<Rightarrow> jsval \<Rightarrow> jsnum \<Rightarrow> jsval \<Rightarrow> exn + jsval" where
  "weather_times_out la lo dt appid = Inl (Error (js ''timeout of 0ms exceeded''))"

definition geocode_answers :: "jsval \<Rightarrow> jsval \<Rightarrow> jsval \<Rightarrow> exn + geocode_data" where
  "geocode_answers la lo k = Inr \<lparr>status = JStr (js ''OK''), results = Some [JObject]\<rparr>"

definition geocode_fails :: "jsval \<Rightarrow> jsval \<Rightarrow> jsval \<Rightarrow> exn + geocode_data" where
  "geocode_fails la lo k = Inl (Error (js ''Request failed with status code 500''))"

definition exif_london :: exif_rec where
  "exif_london =
     empty_exif\<lparr>dateTimeOriginal := Some (JStr (js ''2024:03:15 10:30:00'')),
       gps := Some \<lparr>latitude = JStr (js ''51deg 30' 0\" N''),
                     longitude = JStr (js ''0deg 15' 0\" W''),
                     latitudeDecimal = Some (JNum (Fin 51.5)),
                     longitudeDecimal = Some (JNum (Fin (- 0.25)))\<rparr>\<rparr>"

definition date_london :: jsdate where
  "date_london = LocalDate (Fin 2024) (Fin 2) (Fin 15) (Fin 10) (Fin 30) (Fin 0)"

definition coords_london :: coords where
  "coords_london = \<lparr>lat = JNum (Fin 51.5), lon = JNum (Fin (- 0.25))\<rparr>"

text \<open>
  A run in which every file carries the London tags, the weather provider times out, and
  the storage service refuses the upload of the file at index \<open>bad\<close>.
\<close>

definition sample_env :: "api_config \<Rightarrow> nat \<Rightarrow> env" where
  "sample_env cfg bad =
     \<lparr>config = cfg,
      exif_load = (\<lambda>i f. Inr tags_london),
      weather_api = (\<lambda>i. weather_times_out),
      geocode_api = (\<lambda>i. geocode_answers),
      storage_upload = (\<lambda>i p f. if i = bad then Some (js ''quota exceeded'') else None),
      db_insert = (\<lambda>i r. None),
      date_now = (\<lambda>i. 1710498600000 + i),
      get_time = (\<lambda>d. Fin 1710498600000),
      iso_string = (\<lambda>d. js ''2024-03-15T10:30:00.000Z'')\<rparr>"

text \<open>
  A run in which every file carries coordinates and no date, and the geocoding provider
  answers with an error status.
\<close>

definition tags_gps_only :: tags where
  "tags_gps_only =
     [''GPSLatitude'' \<mapsto> \<lparr>description = JStr (js ''51deg 30' 0\" N''), tvalue = JObject\<rparr>,
      ''GPSLongitude'' \<mapsto> \<lparr>description = JStr (js ''0deg 15' 0\" W''), tvalue = JObject\<rparr>]"

definition exif_gps_only :: exif_rec where
  "exif_gps_only =
     empty_exif\<lparr>gps := Some \<lparr>latitude = JStr (js ''51deg 30' 0\" N''),
                               longitude = JStr (js ''0deg 15' 0\" W''),
                               latitudeDecimal = Some (JNum (Fin 51.5)),
                               longitudeDecimal = Some (JNum (Fin (- 0.25)))\<rparr>\<rparr>"

definition env_geocode_down :: env where
  "env_geocode_down =
     \<lparr>config = both_keys,
      exif_load = (\<lambda>i f. Inr tags_gps_only),
      weather_api = (\<lambda>i. weather_answers),
      geocode_api = (\<lambda>i. geocode_fails),
      storage_upload = (\<lambda>i p f. None),
      db_insert = (\<lambda>i r. None),
      date_now = (\<lambda>i. 1710498600000 + i),
      get_time = (\<lambda>d. Fin 1710498600000),
      iso_string = (\<lambda>d. js ''2024-03-15T10:30:00.000Z'')\<rparr>"

definition sample_form :: form where
  "sample_form =
     \<lparr>projectId = js ''p1'', user_id = JStr (js ''u1''), form_description = js ''crack'',
      locationDescription = js ''4F''\<rparr>"

definition sample_files :: "jsfile list" where
  "sample_files =
     [\<lparr>name = js ''a.jpg'', bytes = []\<rparr>, \<lparr>name = js ''b.jpg'', bytes = []\<rparr>,
      \<lparr>name = js ''c.jpg'', bytes = []\<rparr>]"

definition sample_path :: "nat \<Rightarrow> storage_path_rec" where
  "sample_path i =
     \<lparr>path_project = js ''p1'', path_millis = 1710498600000 + i, path_index = i,
      path_ext = js ''jpg''\<rparr>"

definition sample_row :: "nat \<Rightarrow> photo" where
  "sample_row i =
     \<lparr>project_id = js ''p1'', uploaded_by = JStr (js ''u1''), storage_path = sample_path i,
      photo_description = js ''crack'', location_description = js ''4F'',
      exif_data = Some exif_london, weather_data = JNull, geo_data = JObject,
      taken_at = JStr (js ''2024-03-15T10:30:00.000Z''), ai_processed = False,
      ai_processing_status = js ''pending''\<rparr>"

definition world0 :: world where
  "world0 =
     \<lparr>storage = [], photos = [], calls = [], error = JNull, isLoading = False,
      uploadProgress = 0, uploadStatus = Idle, pushed_route = None\<rparr>"

section \<open>Properties\<close>

subsection \<open>Number values\<close>

lemma search_exponent_lower: "- 1022 \<le> search_exponent a n"
  by (induction n) auto

lemma search_exponent_le:
  "search_exponent a n \<noteq> - 1022 \<Longrightarrow> 2 powi (search_exponent a n) \<le> a"
  by (induction n) (auto split: if_splits)

lemma search_exponent_top:
  "2 powi (int n - 1021) \<le> a \<Longrightarrow> search_exponent a (Suc n) = int n - 1021"
  by simp

lemma round_half_even_int: "round_half_even (of_int n) = n"
  by (simp add: round_half_even_def)

text \<open>A real that is a double is its own Number value.\<close>

lemma to_number_exact:
  assumes x: "x = of_int m * 2 powi k" and m: "\<bar>m\<bar> < 2 ^ 53" and k: "- 1074 \<le> k"
    and r: "\<bar>x\<bar> < 2 ^ 1024"
  shows "to_number x = Fin x"
proof -
  define e where "e = binary_exponent \<bar>x\<bar>"
  have e1: "- 1022 \<le> e"
    by (simp add: e_def binary_exponent_def search_exponent_lower)
  have ke: "e - 52 \<le> k"
  proof (cases "e = - 1022")
    case True
    with k show ?thesis by simp
  next
    case False
    then have "2 powi e \<le> \<bar>x\<bar>"
      unfolding e_def binary_exponent_def by (rule search_exponent_le)
    also have "\<bar>x\<bar> = of_int \<bar>m\<bar> * 2 powi k"
      by (simp add: x abs_mult)
    also have "\<dots> < 2 ^ 53 * 2 powi k"
    proof -
      have "(of_int \<bar>m\<bar> :: real) < of_int (2 ^ 53)" using m by (simp only: of_int_less_iff)
      then have "(of_int \<bar>m\<bar> :: real) < 2 ^ 53" by simp
      then show ?thesis by (simp add: mult_strict_right_mono)
    qed
    also have "\<dots> = 2 powi (53 + k)"
      by (simp add: power_int_add)
    finally have "(2::real) powi e < 2 powi (53 + k)" .
    then have "e < 53 + k"
      by (smt (verit) power_int_increasing)
    then show ?thesis by simp
  qed
  define j where "j = nat (k - (e - 52))"
  have kj: "k = (e - 52) + int j" using ke by (simp add: j_def)
  let ?q = "(2::real) powi (e - 52)"
  have q: "0 < ?q" by simp
  have xq: "x = of_int (m * 2 ^ j) * ?q"
    by (simp add: x kj power_int_add)
  then have "x / ?q = of_int (m * 2 ^ j)"
    using q by simp
  then have "round_half_even (x / ?q) = m * 2 ^ j"
    by (simp only: round_half_even_int)
  then have "of_int (round_half_even (x / ?q)) * ?q = x"
    using xq by simp
  then show ?thesis
    using r by (auto simp add: to_number_def Let_def e_def [symmetric])
qed

text \<open>From \<open>2^1024\<close> on, the Number value is Infinity.\<close>

lemma to_number_overflow:
  assumes "2 ^ 1024 \<le> x"
  shows "to_number x = PosInf"
proof -
  have x: "\<bar>x\<bar> = x" using assms by (smt (verit) zero_less_power)
  have "(2::real) powi (int 2044 - 1021) \<le> x"
  proof -
    have "(2::real) ^ 1023 \<le> 2 ^ 1024" by (rule power_increasing) simp_all
    with assms show ?thesis by simp
  qed
  then have "search_exponent x (Suc 2044) = int 2044 - 1021"
    by (rule search_exponent_top)
  then have e: "binary_exponent \<bar>x\<bar> = 1023"
    by (simp add: binary_exponent_def x)
  let ?q = "(2::real) ^ 971"
  have q: "0 < ?q" by simp
  have pq: "(2::real) ^ 53 * ?q = 2 ^ 1024" by (simp flip: power_add)
  then have "2 ^ 53 \<le> x / ?q"
    using assms q by (simp add: le_divide_eq)
  then have "(2::int) ^ 53 \<le> \<lfloor>x / ?q\<rfloor>"
    by (simp add: le_floor_iff)
  moreover have "\<lfloor>x / ?q\<rfloor> \<le> round_half_even (x / ?q)"
    by (simp add: round_half_even_def Let_def)
  ultimately have "(2::int) ^ 53 \<le> round_half_even (x / ?q)" by linarith
  then have "(2::real) ^ 53 \<le> of_int (round_half_even (x / ?q))"
    by (metis of_int_le_iff of_int_numeral of_int_power)
  then have "2 ^ 53 * ?q \<le> of_int (round_half_even (x / ?q)) * ?q"
    using q by (simp add: mult_right_mono)
  with pq show ?thesis
    by (simp add: to_number_def Let_def e)
qed

text \<open>A rule for the sample inputs: small multiples of \<open>2^-20\<close> are doubles.\<close>

lemma to_number_small_dyadic:
  assumes i: "of_int \<lfloor>x * 2 ^ 20\<rfloor> = x * 2 ^ 20" and b: "\<bar>x\<bar> < 2 ^ 33"
  shows "to_number x = Fin x"
proof -
  define m where "m = \<lfloor>x * 2 ^ 20\<rfloor>"
  have mx: "of_int m = x * 2 ^ 20" using i by (simp add: m_def)
  then have x: "x = of_int m * 2 powi (- 20)"
    by (simp add: power_int_minus field_simps)
  have "\<bar>of_int m :: real\<bar> = \<bar>x\<bar> * 2 ^ 20"
    by (simp add: mx abs_mult)
  also have "\<dots> < 2 ^ 33 * 2 ^ 20"
    using b by (simp add: mult_strict_right_mono)
  also have "\<dots> = 2 ^ 53" by (simp flip: power_add)
  finally have "\<bar>of_int m :: real\<bar> < of_int (2 ^ 53)" by simp
  then have m53: "\<bar>m\<bar> < 2 ^ 53"
    by (metis of_int_abs of_int_less_iff)
  have "(2::real) ^ 33 \<le> 2 ^ 1024" by (rule power_increasing) simp_all
  with b have r: "\<bar>x\<bar> < 2 ^ 1024" by linarith
  show ?thesis
    by (rule to_number_exact [OF x m53 _ r]) simp
qed

subsection \<open>Evaluation rules for concrete inputs\<close>

lemmas char_class_defs = js_def is_sep_def is_digit_def is_word_def is_space_def is_letter_def

lemmas number_defs = parseFloat_def unsigned_literal_def digits_val_def scale10_def
  exponent_part_def nth_opt_def

lemmas convert_defs = convertDMSToDecimal_def convertDMSToDecimal_body_def try_catch_def
  bind_exn_def split_dms.simps

lemmas extract_defs = extractExifData_def extractExifData_body_def set_gps_fields_def
  set_date_fields_def set_camera_fields_def typeof_string_def empty_exif_def

subsection \<open>convertDMSToDecimal on malformed strings\<close>

lemma num_add_NaN_right: "num_add x NaN = NaN"
  by (cases x) simp_all

lemma convert_string_is_number: "\<exists>n. convertDMSToDecimal (JStr s) = Inr (JNum n)"
  by (simp add: convertDMSToDecimal_def convertDMSToDecimal_body_def try_catch_def Let_def)

lemma convert_returns: "\<exists>v. convertDMSToDecimal x = Inr v"
  by (cases x) (simp_all add: convertDMSToDecimal_def convertDMSToDecimal_body_def try_catch_def Let_def)

lemma convert_malformed:
  assumes "malformed_dms s"
  shows "convertDMSToDecimal (JStr s) = Inr (JNum NaN)"
  using assms
  by (auto simp add: malformed_dms_def numeric_token_def convertDMSToDecimal_def
      convertDMSToDecimal_body_def try_catch_def Let_def num_add_NaN_right)

lemma malformed_abc: "malformed_dms (js ''abc'')"
  by (simp add: malformed_dms_def numeric_token_def convert_defs char_class_defs number_defs)

lemma malformed_missing_tokens: "malformed_dms (js ''51deg 30'')"
  by (simp add: malformed_dms_def numeric_token_def convert_defs char_class_defs number_defs)

text \<open>
  C1. The claim: on a malformed string (a numeric token missing or not a number)
  \<open>convertDMSToDecimal\<close> returns \<open>null\<close>, never throws and never returns NaN. The code
  does not throw, but what it returns on every malformed string is NaN, not \<open>null\<close>:
  \<open>parseFloat\<close> signals failure by NaN and nothing tests for it, so the \<open>catch\<close> that
  returns \<open>null\<close> is never entered for a string.
\<close>

theorem convertDMSToDecimal_malformed_is_NaN:
  assumes "malformed_dms s"
  shows "convertDMSToDecimal (JStr s) = Inr (JNum NaN) \<and> convertDMSToDecimal (JStr s) \<noteq> Inr JNull"
  using convert_malformed [OF assms] by simp

theorem convertDMSToDecimal_malformed_is_NaN_witness:
  "malformed_dms (js ''abc'') \<and> convertDMSToDecimal (JStr (js ''abc'')) = Inr (JNum NaN)
   \<and> malformed_dms (js ''51deg 30'') \<and> convertDMSToDecimal (JStr (js ''51deg 30'')) = Inr (JNum NaN)"
  using convertDMSToDecimal_malformed_is_NaN [OF malformed_abc]
    convertDMSToDecimal_malformed_is_NaN [OF malformed_missing_tokens]
    malformed_abc malformed_missing_tokens
  by simp

subsection \<open>convertDMSToDecimal on well-formed strings\<close>

lemma split_dms_piece:
  assumes "\<forall>x\<in>set t. \<not> is_sep x" and "is_sep c"
  shows "split_dms (t @ c # r) = t # split_dms (dropWhile is_sep r)"
proof -
  have d: "dropWhile (\<lambda>c. \<not> is_sep c) (t @ c # r) = c # r"
    using assms by (simp add: dropWhile_append3)
  have k: "takeWhile (\<lambda>c. \<not> is_sep c) (t @ c # r) = t"
    using assms by (simp add: takeWhile_tail)
  show ?thesis
    by (subst split_dms.simps) (simp add: d k)
qed

lemma split_dms_last:
  assumes "\<forall>x\<in>set t. \<not> is_sep x"
  shows "split_dms t = [t]"
proof -
  have e: "dropWhile (\<lambda>c. \<not> is_sep c) t = []"
    using assms by simp
  show ?thesis
    by (subst split_dms.simps) (simp add: e)
qed

lemma digits_val_snoc: "digits_val (a @ [c]) = 10 * digits_val a + (c - 48)"
  by (simp add: digits_val_def)

lemma digits_val_append: "digits_val (a @ b) = digits_val a * 10 ^ length b + digits_val b"
proof (induction b rule: rev_induct)
  case Nil
  show ?case by (simp add: digits_val_def)
next
  case (snoc c b)
  have "digits_val (a @ b @ [c]) = 10 * digits_val (a @ b) + (c - 48)"
    using digits_val_snoc [of "a @ b" c] by simp
  also have "\<dots> = 10 * (digits_val a * 10 ^ length b + digits_val b) + (c - 48)"
    by (simp add: snoc.IH)
  also have "\<dots> = digits_val a * 10 ^ length (b @ [c]) + digits_val (b @ [c])"
    by (simp add: digits_val_snoc algebra_simps)
  finally show ?case by simp
qed

lemma exponent_part_none: "ends_literal r \<Longrightarrow> exponent_part r = 0"
  by (cases r) (simp_all add: exponent_part_def ends_literal_def)

lemma takeWhile_digits:
  assumes "list_all is_digit ds" and "case r of [] \<Rightarrow> True | c # t \<Rightarrow> \<not> is_digit c"
  shows "takeWhile is_digit (ds @ r) = ds" and "dropWhile is_digit (ds @ r) = r"
  using assms by (cases r; simp add: list_all_iff takeWhile_append2 dropWhile_append2)+

lemma unsigned_literal_numeral:
  assumes wf: "well_formed_numeral ip fp" and e: "ends_literal r"
  shows "unsigned_literal (decimal_numeral ip fp @ r) = numeral_number ip fp"
proof -
  from wf obtain d ds where ip: "ip = d # ds" and d: "is_digit d"
    by (cases ip) (auto simp: well_formed_numeral_def)
  from wf have dip: "list_all is_digit ip" and dfp: "list_all is_digit fp"
    by (simp_all add: well_formed_numeral_def)
  have noinf: "\<not> prefix (js ''Infinity'') (decimal_numeral ip fp @ r)"
    using d by (auto simp: ip decimal_numeral_def js_def is_digit_def)
  have er: "case r of [] \<Rightarrow> True | c # t \<Rightarrow> \<not> is_digit c"
    using e by (cases r) (simp_all add: ends_literal_def)
  show ?thesis
  proof (cases "fp = []")
    case True
    have t: "takeWhile is_digit (ip @ r) = ip" and dr: "dropWhile is_digit (ip @ r) = r"
      using takeWhile_digits [OF dip er] by simp_all
    have "unsigned_literal (ip @ r) = to_number (real (digits_val ip))"
    proof (cases r)
      case Nil
      with t dr ip noinf True show ?thesis
        by (simp add: unsigned_literal_def decimal_numeral_def scale10_def Let_def)
    next
      case (Cons c u)
      with e have c: "c \<noteq> 46" by (simp add: ends_literal_def)
      have "exponent_part r = 0" using e by (rule exponent_part_none)
      with t dr ip noinf True Cons c show ?thesis
        by (simp add: unsigned_literal_def decimal_numeral_def scale10_def Let_def)
    qed
    with True show ?thesis
      by (simp add: decimal_numeral_def numeral_number_def numeral_val_def digits_val_def)
  next
    case False
    have nd: "case 46 # fp @ r of [] \<Rightarrow> True | c # t \<Rightarrow> \<not> is_digit c"
      by (simp add: is_digit_def)
    have t: "takeWhile is_digit (ip @ 46 # fp @ r) = ip"
      and dr: "dropWhile is_digit (ip @ 46 # fp @ r) = 46 # fp @ r"
      using takeWhile_digits [OF dip nd] by simp_all
    have t2: "takeWhile is_digit (fp @ r) = fp" and dr2: "dropWhile is_digit (fp @ r) = r"
      using takeWhile_digits [OF dfp er] by simp_all
    have ex: "exponent_part r = 0" using e by (rule exponent_part_none)
    have lit: "unsigned_literal (ip @ 46 # fp @ r)
                 = to_number (scale10 (digits_val (ip @ fp)) (- int (length fp)))"
      using noinf False t dr t2 dr2 ex
      by (simp add: unsigned_literal_def decimal_numeral_def Let_def)
    have len: "0 < length fp" using False by simp
    have "scale10 (digits_val (ip @ fp)) (- int (length fp))
            = real (digits_val (ip @ fp)) / 10 ^ length fp"
      using len by (simp add: scale10_def)
    also have "\<dots> = numeral_val ip fp"
      by (simp add: digits_val_append numeral_val_def add_divide_distrib)
    finally show ?thesis
      using lit False by (simp add: decimal_numeral_def numeral_number_def)
  qed
qed

lemma parseFloat_numeral:
  assumes wf: "well_formed_numeral ip fp" and e: "ends_literal r"
  shows "parseFloat (decimal_numeral ip fp @ r) = numeral_number ip fp"
proof -
  from wf obtain d ds where ip: "ip = d # ds" and d: "is_digit d"
    by (cases ip) (auto simp: well_formed_numeral_def)
  obtain u where u: "decimal_numeral ip fp @ r = d # u"
    by (cases "fp = []") (simp_all add: ip decimal_numeral_def)
  have "\<not> is_space d" "d \<noteq> 45" "d \<noteq> 43"
    using d by (auto simp: is_digit_def is_space_def)
  then have "parseFloat (d # u) = unsigned_literal (d # u)"
    by (simp add: parseFloat_def)
  then show ?thesis
    using unsigned_literal_numeral [OF wf e] u by simp
qed

lemma numeral_no_sep:
  assumes "well_formed_numeral ip fp"
  shows "\<forall>x\<in>set (decimal_numeral ip fp). \<not> is_sep x"
  using assms by (auto simp: well_formed_numeral_def decimal_numeral_def list_all_iff is_sep_def)

lemma numeral_starts:
  assumes "well_formed_numeral ip fp"
  shows "dropWhile is_sep (decimal_numeral ip fp @ r) = decimal_numeral ip fp @ r"
  using assms by (cases ip) (auto simp: well_formed_numeral_def decimal_numeral_def is_sep_def)

lemma split_dms_string:
  assumes D: "well_formed_numeral Di Df" and M: "well_formed_numeral Mi Mf"
    and S: "well_formed_numeral Si Sf" and H: "is_word H"
  shows "split_dms (dms_string (decimal_numeral Di Df) (decimal_numeral Mi Mf) (decimal_numeral Si Sf) H)
           = [decimal_numeral Di Df @ js ''deg'', decimal_numeral Mi Mf, decimal_numeral Si Sf, [H]]"
proof -
  let ?D = "decimal_numeral Di Df" and ?M = "decimal_numeral Mi Mf" and ?S = "decimal_numeral Si Sf"
  have sp: "is_sep 32" "is_sep 39" "is_sep 34"
    by (simp_all add: is_sep_def is_digit_def is_word_def)
  have t1: "\<forall>x\<in>set (?D @ js ''deg''). \<not> is_sep x"
    using numeral_no_sep [OF D] by (auto simp: js_def is_sep_def is_word_def)
  have s4: "split_dms [H] = [[H]]"
    using H by (intro split_dms_last) (simp add: is_sep_def)
  have s3: "split_dms (?S @ 34 # 32 # [H]) = [?S, [H]]"
    using split_dms_piece [OF numeral_no_sep [OF S] sp(3), of "32 # [H]"] sp H s4
    by (simp add: is_sep_def)
  have s2: "split_dms (?M @ 39 # 32 # ?S @ 34 # 32 # [H]) = [?M, ?S, [H]]"
    using split_dms_piece [OF numeral_no_sep [OF M] sp(2), of "32 # ?S @ 34 # 32 # [H]"] sp
      numeral_starts [OF S, of "34 # 32 # [H]"] s3
    by simp
  have s1: "split_dms ((?D @ js ''deg'') @ 32 # ?M @ 39 # 32 # ?S @ 34 # 32 # [H])
              = [?D @ js ''deg'', ?M, ?S, [H]]"
    using split_dms_piece [OF t1 sp(1), of "?M @ 39 # 32 # ?S @ 34 # 32 # [H]"]
      numeral_starts [OF M, of "39 # 32 # ?S @ 34 # 32 # [H]"] s2
    by simp
  have "dms_string ?D ?M ?S H = (?D @ js ''deg'') @ 32 # ?M @ 39 # 32 # ?S @ 34 # 32 # [H]"
    by (simp add: dms_string_def js_def)
  with s1 show ?thesis by simp
qed

text \<open>
  C5, as stated. The claim gives the form \<open>D deg M' S" H\<close>, with a space between the
  degrees and \<open>deg\<close>. On such a string the split makes \<open>deg\<close> a piece of its own, the
  minutes are read from it, and the result is NaN.
\<close>

theorem convertDMSToDecimal_spaced_deg_counterexample:
  "convertDMSToDecimal (JStr (js ''51 deg 30' 35.66\" N'')) = Inr (JNum NaN)
   \<and> split_dms (js ''51 deg 30' 35.66\" N'') = [js ''51'', js ''deg'', js ''30'', js ''35.66'', js ''N'']"
  by (simp add: convert_defs char_class_defs number_defs num_add_NaN_right)

text \<open>
  C5, amended. For every string of the form \<open>Ddeg M' S" H\<close> of the code's own comment
  (\<open>deg\<close> written directly after the degrees), with decimal numerals \<open>D\<close>, \<open>M\<close>, \<open>S\<close> and a
  hemisphere letter \<open>H\<close>, \<open>convertDMSToDecimal\<close> returns \<open>D + M/60 + S/3600\<close> when \<open>H\<close> is
  N or E and the negation of that value when \<open>H\<close> is S or W, where each numeral stands
  for the double nearest to it and the sum and the quotients are those of JavaScript
  numbers.
\<close>

theorem convertDMSToDecimal_well_formed:
  assumes D: "well_formed_numeral Di Df" and M: "well_formed_numeral Mi Mf"
    and S: "well_formed_numeral Si Sf" and H: "[H] \<in> {js ''N'', js ''E'', js ''S'', js ''W''}"
  shows "convertDMSToDecimal
           (JStr (dms_string (decimal_numeral Di Df) (decimal_numeral Mi Mf) (decimal_numeral Si Sf) H))
         = Inr (JNum (if [H] = js ''S'' \<or> [H] = js ''W''
                      then num_neg (dms_value (numeral_number Di Df) (numeral_number Mi Mf)
                                      (numeral_number Si Sf))
                      else dms_value (numeral_number Di Df) (numeral_number Mi Mf)
                             (numeral_number Si Sf)))"
proof -
  have Hw: "is_word H"
    using H by (auto simp: js_def is_word_def)
  have ed: "ends_literal (js ''deg'')" and en: "ends_literal []"
    by (simp_all add: ends_literal_def js_def is_digit_def)
  have pd: "parseFloat (decimal_numeral Di Df @ js ''deg'') = numeral_number Di Df"
    by (rule parseFloat_numeral [OF D ed])
  have pm: "parseFloat (decimal_numeral Mi Mf) = numeral_number Mi Mf"
    using parseFloat_numeral [OF M en] by simp
  have ps: "parseFloat (decimal_numeral Si Sf) = numeral_number Si Sf"
    using parseFloat_numeral [OF S en] by simp
  show ?thesis
    by (simp add: convertDMSToDecimal_def convertDMSToDecimal_body_def try_catch_def Let_def
        split_dms_string [OF D M S Hw] nth_opt_def pd pm ps dms_value_def)
qed

text \<open>
  The arithmetic at work on the example of the code's comment: the seconds, their
  quotient and the last sum are rounded to doubles.
\<close>

lemma search_exponent_eq:
  "2 powi e \<le> a \<Longrightarrow> a < 2 powi (e + 1) \<Longrightarrow> - 1022 \<le> e \<Longrightarrow> e \<le> int n - 1022
     \<Longrightarrow> search_exponent a n = e"
proof (induction n)
  case 0
  then show ?case by simp
next
  case (Suc n)
  show ?case
  proof (cases "2 powi (int n - 1021) \<le> a")
    case True
    with Suc.prems(2) have "(2::real) powi (int n - 1021) < 2 powi (e + 1)" by linarith
    then have "int n - 1021 < e + 1"
      by (smt (verit) power_int_increasing)
    with Suc.prems(4) have "e = int n - 1021" by simp
    with True show ?thesis by simp
  next
    case False
    with Suc.prems(1) have "(2::real) powi e < 2 powi (int n - 1021)" by linarith
    then have "e < int n - 1021"
      by (smt (verit) power_int_increasing)
    then have "e \<le> int n - 1022" by simp
    from Suc.IH [OF Suc.prems(1) Suc.prems(2) Suc.prems(3) this] False show ?thesis by simp
  qed
qed

lemma to_number_at:
  assumes "2 powi e \<le> \<bar>x\<bar>" and "\<bar>x\<bar> < 2 powi (e + 1)" and "- 1022 \<le> e" and "e \<le> 1023"
    and r: "r = of_int (round_half_even (x / 2 powi (e - 52))) * 2 powi (e - 52)"
    and b: "\<bar>r\<bar> < 2 ^ 1024"
  shows "to_number x = Fin r"
proof -
  have "search_exponent \<bar>x\<bar> 2045 = e"
    using assms(1-4) by (intro search_exponent_eq) simp_all
  then have "binary_exponent \<bar>x\<bar> = e" by (simp add: binary_exponent_def)
  with r b show ?thesis
    by (auto simp add: to_number_def Let_def)
qed

lemma round_seconds: "to_number (3566 / 100) = Fin (1254674708687749 / 35184372088832)"
  by (rule to_number_at [of 5]) (simp_all add: round_half_even_def Let_def)

lemma round_seconds_quotient:
  "to_number (1254674708687749 / 35184372088832 / 3600) = Fin (5710164007538911 / 576460752303423488)"
  by (rule to_number_at [of "- 7"]) (simp_all add: round_half_even_def Let_def)

lemma round_sum:
  "to_number (103 / 2 + 5710164007538911 / 576460752303423488) = Fin (7249374733309045 / 140737488355328)"
  by (rule to_number_at [of 5]) (simp_all add: round_half_even_def Let_def)

lemma comment_dms_value:
  "dms_value (numeral_number (js ''51'') []) (numeral_number (js ''30'') [])
     (numeral_number (js ''35'') (js ''66'')) = Fin (7249374733309045 / 140737488355328)"
proof -
  have "numeral_number (js ''51'') [] = Fin 51" "numeral_number (js ''30'') [] = Fin 30"
    by (simp_all add: numeral_number_def numeral_val_def digits_val_def js_def to_number_small_dyadic)
  moreover have "numeral_number (js ''35'') (js ''66'') = Fin (1254674708687749 / 35184372088832)"
    using round_seconds by (simp add: numeral_number_def numeral_val_def digits_val_def js_def)
  moreover have "num_div_const (Fin 30) 60 = Fin (1 / 2)"
    by (simp add: to_number_small_dyadic)
  moreover have "num_add (Fin 51) (Fin (1 / 2)) = Fin (103 / 2)"
    by (simp add: to_number_small_dyadic)
  moreover have "num_div_const (Fin (1254674708687749 / 35184372088832)) 3600
                   = Fin (5710164007538911 / 576460752303423488)"
    using round_seconds_quotient by simp
  moreover have "num_add (Fin (103 / 2)) (Fin (5710164007538911 / 576460752303423488))
                   = Fin (7249374733309045 / 140737488355328)"
    using round_sum by simp
  ultimately show ?thesis
    by (simp add: dms_value_def)
qed

lemma west_dms_value:
  "num_neg (dms_value (numeral_number (js ''12'') []) (numeral_number (js ''30'') [])
              (numeral_number (js ''56'') (js ''25''))) = Fin (- 12.515625)"
  by (simp add: numeral_number_def numeral_val_def digits_val_def js_def dms_value_def
      to_number_small_dyadic)

theorem convertDMSToDecimal_well_formed_witness:
  "well_formed_numeral (js ''51'') [] \<and> well_formed_numeral (js ''30'') []
   \<and> well_formed_numeral (js ''35'') (js ''66'')
   \<and> dms_string (js ''51'') (js ''30'') (js ''35.66'') 78 = js ''51deg 30' 35.66\" N''
   \<and> convertDMSToDecimal (JStr (js ''51deg 30' 35.66\" N''))
       = Inr (JNum (Fin (7249374733309045 / 140737488355328)))
   \<and> convertDMSToDecimal (JStr (js ''12deg 30' 56.25\" W'')) = Inr (JNum (Fin (- 12.515625)))"
proof -
  have a: "well_formed_numeral (js ''51'') []" "well_formed_numeral (js ''30'') []"
    "well_formed_numeral (js ''35'') (js ''66'')"
    by (simp_all add: well_formed_numeral_def char_class_defs)
  have a': "well_formed_numeral (js ''12'') []" "well_formed_numeral (js ''30'') []"
    "well_formed_numeral (js ''56'') (js ''25'')"
    by (simp_all add: well_formed_numeral_def char_class_defs)
  have h: "[78] \<in> {js ''N'', js ''E'', js ''S'', js ''W''}"
    and h': "[87] \<in> {js ''N'', js ''E'', js ''S'', js ''W''}"
    by (simp_all add: js_def)
  have s: "dms_string (js ''51'') (js ''30'') (js ''35.66'') 78 = js ''51deg 30' 35.66\" N''"
    by (simp add: dms_string_def js_def)
  have d: "dms_string (decimal_numeral (js ''51'') []) (decimal_numeral (js ''30'') [])
          (decimal_numeral (js ''35'') (js ''66'')) 78 = js ''51deg 30' 35.66\" N''"
    and d': "dms_string (decimal_numeral (js ''12'') []) (decimal_numeral (js ''30'') [])
          (decimal_numeral (js ''56'') (js ''25'')) 87 = js ''12deg 30' 56.25\" W''"
    by (simp_all add: dms_string_def decimal_numeral_def js_def)
  have n: "[78] \<noteq> js ''S''" "[78] \<noteq> js ''W''" and w: "[87] = js ''W''"
    by (simp_all add: js_def)
  from convertDMSToDecimal_well_formed [OF a h]
  have "convertDMSToDecimal (JStr (js ''51deg 30' 35.66\" N''))
          = Inr (JNum (dms_value (numeral_number (js ''51'') []) (numeral_number (js ''30'') [])
                         (numeral_number (js ''35'') (js ''66''))))"
    unfolding d using n by simp
  then have north: "convertDMSToDecimal (JStr (js ''51deg 30' 35.66\" N''))
          = Inr (JNum (Fin (7249374733309045 / 140737488355328)))"
    unfolding comment_dms_value .
  from convertDMSToDecimal_well_formed [OF a' h']
  have "convertDMSToDecimal (JStr (js ''12deg 30' 56.25\" W''))
          = Inr (JNum (num_neg (dms_value (numeral_number (js ''12'') []) (numeral_number (js ''30'') [])
                                  (numeral_number (js ''56'') (js ''25'')))))"
    unfolding d' w by simp
  then have west: "convertDMSToDecimal (JStr (js ''12deg 30' 56.25\" W'')) = Inr (JNum (Fin (- 12.515625)))"
    unfolding west_dms_value .
  from a s north west show ?thesis by simp
qed

text \<open>
  A degrees numeral beyond the range of doubles is read as Infinity.
\<close>

lemma parseFloat_overflows: "parseFloat (js ''1e400'') = PosInf"
proof -
  have "(2::real) ^ 1024 \<le> 10 ^ 400" by simp
  then have "to_number (10 ^ 400) = PosInf" by (rule to_number_overflow)
  then show ?thesis
    by (simp add: parseFloat_def unsigned_literal_def exponent_part_def digits_val_def scale10_def
        char_class_defs)
qed

subsection \<open>extractExifData\<close>

lemma convert_not_string: "\<not> typeof_string v \<Longrightarrow> convertDMSToDecimal v = Inr JNull"
  by (cases v) (simp_all add: typeof_string_def convertDMSToDecimal_def convertDMSToDecimal_body_def try_catch_def)

lemma gps_set_date_fields: "gps (set_date_fields t d) = gps d"
  by (simp add: set_date_fields_def split: option.splits)

lemma gps_set_camera_fields: "gps (set_camera_fields t d) = gps d"
  by (simp add: set_camera_fields_def Let_def split: option.splits)

lemma set_gps_fields_returns: "\<exists>d'. set_gps_fields t d = Inr d'"
proof (cases "t ''GPSLatitude''")
  case None
  then show ?thesis by (simp add: set_gps_fields_def)
next
  case (Some la)
  show ?thesis
  proof (cases "t ''GPSLongitude''")
    case None
    with Some show ?thesis by (simp add: set_gps_fields_def)
  next
    case lo: (Some lo)
    obtain a b where "convertDMSToDecimal (description la) = Inr a"
      "convertDMSToDecimal (description lo) = Inr b"
      using convert_returns by blast
    with Some lo show ?thesis
      by (simp add: set_gps_fields_def Let_def bind_exn_def)
  qed
qed

lemma extractExifData_throw: "extractExifData (Inl x) = Inr None"
  by (simp add: extractExifData_def extractExifData_body_def try_catch_def bind_exn_def)

lemma extractExifData_tags:
  "\<exists>d'. set_gps_fields t (set_date_fields t empty_exif) = Inr d'
     \<and> extractExifData (Inr t) = Inr (Some (set_camera_fields t d'))"
proof -
  obtain d' where "set_gps_fields t (set_date_fields t empty_exif) = Inr d'"
    using set_gps_fields_returns by blast
  then show ?thesis
    by (simp add: extractExifData_def extractExifData_body_def try_catch_def bind_exn_def)
qed

lemma extractExifData_no_relevant_tags:
  assumes "no_relevant_tags t"
  shows "extractExifData (Inr t) = Inr (Some empty_exif)"
proof -
  have a: "set_date_fields t empty_exif = empty_exif"
    using assms by (simp add: no_relevant_tags_def set_date_fields_def)
  have b: "set_gps_fields t empty_exif = Inr empty_exif"
    using assms by (auto simp add: no_relevant_tags_def set_gps_fields_def split: option.splits)
  have c: "set_camera_fields t empty_exif = empty_exif"
    using assms by (auto simp add: no_relevant_tags_def set_camera_fields_def split: option.splits)
  show ?thesis
    by (simp add: extractExifData_def extractExifData_body_def try_catch_def bind_exn_def a b c)
qed

text \<open>
  C6, amended. \<open>extractExifData\<close> never throws. It returns \<open>null\<close> exactly when the
  decoder throws; when the decoder returns a tag set with none of the tags the extractor
  reads, the result is the empty object, not \<open>null\<close>.
\<close>

theorem extractExifData_null_iff_decoder_throws:
  "(\<exists>r. extractExifData loaded = Inr r)
   \<and> (extractExifData loaded = Inr None \<longleftrightarrow> (\<exists>x. loaded = Inl x))
   \<and> (\<forall>t. loaded = Inr t \<and> no_relevant_tags t \<longrightarrow> extractExifData loaded = Inr (Some empty_exif))"
proof (cases loaded)
  case (Inl x)
  then show ?thesis by (simp add: extractExifData_throw)
next
  case (Inr t)
  then show ?thesis
    using extractExifData_tags [of t] extractExifData_no_relevant_tags [of t] by auto
qed

text \<open>
  C6, as stated. The claim has \<open>null\<close> returned also when no relevant tag exists. On a
  decoded tag set without any tag the code returns the object it started from.
\<close>

theorem extractExifData_no_tags_counterexample:
  "no_relevant_tags no_tags \<and> extractExifData (Inr no_tags) = Inr (Some empty_exif)
   \<and> extractExifData (Inr no_tags) \<noteq> Inr None"
  by (simp add: no_relevant_tags_def no_tags_def extract_defs try_catch_def bind_exn_def)

lemma no_relevant_no_tags: "no_relevant_tags no_tags"
  by (simp add: no_relevant_tags_def no_tags_def)

theorem extractExifData_null_iff_decoder_throws_witness:
  "extractExifData (Inr no_tags) = Inr (Some empty_exif)
   \<and> extractExifData (Inl (Error (js ''Invalid image format''))) = Inr None"
  using extractExifData_null_iff_decoder_throws [of "Inr no_tags"]
    extractExifData_null_iff_decoder_throws [of "Inl (Error (js ''Invalid image format''))"]
    no_relevant_no_tags
  by simp

subsection \<open>extractGPSCoordinates\<close>

text \<open>
  C9. \<open>extractGPSCoordinates\<close> never throws and returns a pair exactly when \<open>gps\<close> is
  there and both \<open>latitudeDecimal\<close> and \<open>longitudeDecimal\<close> are truthy, the pair being
  these two values. So when either decimal is exactly 0 the result is \<open>null\<close>.
\<close>

theorem extractGPSCoordinates_iff_both_truthy:
  "(\<exists>r. extractGPSCoordinates x = Inr r)
   \<and> (extractGPSCoordinates x = Inr (Some c) \<longleftrightarrow>
        (\<exists>d g. x = Some d \<and> gps d = Some g
           \<and> truthy (get_prop (latitudeDecimal g)) \<and> truthy (get_prop (longitudeDecimal g))
           \<and> c = \<lparr>lat = get_prop (latitudeDecimal g), lon = get_prop (longitudeDecimal g)\<rparr>))
   \<and> (\<forall>d g. x = Some d \<and> gps d = Some g
         \<and> (latitudeDecimal g = Some (JNum (Fin 0)) \<or> longitudeDecimal g = Some (JNum (Fin 0)))
         \<longrightarrow> extractGPSCoordinates x = Inr None)"
  by (auto simp add: extractGPSCoordinates_def extractGPSCoordinates_body_def try_catch_def
      split: option.splits)

theorem extractGPSCoordinates_iff_both_truthy_witness:
  "gps exif_equator \<noteq> None \<and> extractGPSCoordinates (Some exif_equator) = Inr None"
  using extractGPSCoordinates_iff_both_truthy [of "Some exif_equator"]
  by (simp add: exif_equator_def empty_exif_def)


subsection \<open>The GPS fields of extractExifData\<close>

lemma set_gps_fields_absent:
  assumes "t ''GPSLatitude'' = None \<or> t ''GPSLongitude'' = None"
  shows "set_gps_fields t d = Inr d"
  using assms by (auto simp add: set_gps_fields_def split: option.splits)

lemma set_gps_fields_gated:
  assumes "t ''GPSLatitude'' = Some la" and "t ''GPSLongitude'' = Some lo"
    and "description la = JStr s" and "str_includes s (js ''deg'')"
    and "convertDMSToDecimal (JStr s) = Inr lad" and "convertDMSToDecimal (description lo) = Inr lod"
  shows "set_gps_fields t d =
           Inr (d\<lparr>gps := Some \<lparr>latitude = JStr s, longitude = description lo,
                                 latitudeDecimal = Some lad, longitudeDecimal = Some lod\<rparr>\<rparr>)"
  using assms by (simp add: set_gps_fields_def typeof_string_def bind_exn_def)

lemma set_gps_fields_ungated:
  assumes "t ''GPSLatitude'' = Some la" and "t ''GPSLongitude'' = Some lo"
    and "\<not> (\<exists>s. description la = JStr s \<and> str_includes s (js ''deg''))"
  shows "set_gps_fields t d =
           Inr (d\<lparr>gps := Some \<lparr>latitude = description la, longitude = description lo,
                                 latitudeDecimal = None, longitudeDecimal = None\<rparr>\<rparr>)"
  using assms by (cases "description la") (simp_all add: set_gps_fields_def typeof_string_def)

lemma gps_of_extract:
  assumes "extractExifData (Inr t) = Inr (Some d)"
  shows "\<exists>d'. set_gps_fields t (set_date_fields t empty_exif) = Inr d' \<and> gps d = gps d'"
  using assms extractExifData_tags [of t] by (auto simp: gps_set_camera_fields)

text \<open>
  C7, amended. In every object that \<open>extractExifData\<close> returns with a \<open>gps\<close> field, both
  GPS tags existed and their descriptions are kept as \<open>latitude\<close> and \<open>longitude\<close>,
  whether or not a conversion was made or succeeded; a decimal field is present only if
  the latitude description is a string that contains \<open>deg\<close>; and a decimal field whose
  description is a malformed string never holds zero.
\<close>

theorem extractExifData_gps_fields:
  assumes "extractExifData (Inr t) = Inr (Some d)" and "gps d = Some g"
  shows "(\<exists>la lo. t ''GPSLatitude'' = Some la \<and> t ''GPSLongitude'' = Some lo
            \<and> latitude g = description la \<and> longitude g = description lo)
         \<and> ((latitudeDecimal g \<noteq> None \<or> longitudeDecimal g \<noteq> None)
              \<longrightarrow> (\<exists>s. latitude g = JStr s \<and> str_includes s (js ''deg'')))
         \<and> (\<forall>s. latitude g = JStr s \<and> malformed_dms s \<longrightarrow> latitudeDecimal g \<noteq> Some (JNum (Fin 0)))
         \<and> (\<forall>s. longitude g = JStr s \<and> malformed_dms s \<longrightarrow> longitudeDecimal g \<noteq> Some (JNum (Fin 0)))"
proof -
  let ?d0 = "set_date_fields t empty_exif"
  obtain d' where d': "set_gps_fields t ?d0 = Inr d'" and g': "gps d' = Some g"
    using gps_of_extract [OF assms(1)] assms(2) by auto
  have g0: "gps ?d0 = None"
    by (simp add: gps_set_date_fields empty_exif_def)
  show ?thesis
  proof (cases "t ''GPSLatitude'' = None \<or> t ''GPSLongitude'' = None")
    case True
    with d' g' g0 show ?thesis by (simp add: set_gps_fields_absent)
  next
    case False
    then obtain la lo where la: "t ''GPSLatitude'' = Some la" and lo: "t ''GPSLongitude'' = Some lo"
      by auto
    show ?thesis
    proof (cases "\<exists>s. description la = JStr s \<and> str_includes s (js ''deg'')")
      case False
      from set_gps_fields_ungated [OF la lo False, of ?d0] d' g' la lo
      show ?thesis by auto
    next
      case True
      then obtain s where s: "description la = JStr s" "str_includes s (js ''deg'')" by auto
      obtain lad lod where c: "convertDMSToDecimal (JStr s) = Inr lad"
        "convertDMSToDecimal (description lo) = Inr lod"
        using convert_returns by blast
      from set_gps_fields_gated [OF la lo s c, of ?d0] d' g'
      have g: "g = \<lparr>latitude = JStr s, longitude = description lo,
                    latitudeDecimal = Some lad, longitudeDecimal = Some lod\<rparr>"
        by simp
      have z1: "malformed_dms s \<Longrightarrow> lad \<noteq> JNum (Fin 0)"
        using convert_malformed [of s] c by auto
      have z2: "description lo = JStr s' \<Longrightarrow> malformed_dms s' \<Longrightarrow> lod \<noteq> JNum (Fin 0)" for s'
        using convert_malformed [of s'] c by auto
      show ?thesis
        using la lo s z1 z2 by (auto simp: g)
    qed
  qed
qed

lemma extract_deg_only: "extractExifData (Inr tags_deg_only) =
      Inr (Some (empty_exif\<lparr>gps := Some \<lparr>latitude = JStr (js ''deg''), longitude = JStr (js ''x''),
         latitudeDecimal = Some (JNum NaN), longitudeDecimal = Some (JNum NaN)\<rparr>\<rparr>))"
  by (simp add: extract_defs tags_deg_only_def convert_defs char_class_defs number_defs)

text \<open>
  C7, as stated. The claim has the decimal fields present only if the string matched the
  \<open>deg \<dots> ' \<dots> " hemisphere\<close> pattern, and left out when the conversion fails. With
  the latitude description \<open>deg\<close> and the longitude description \<open>x\<close>, both malformed,
  both decimal fields are present.
\<close>

theorem extractExifData_decimals_without_pattern_counterexample:
  "malformed_dms (js ''deg'') \<and> malformed_dms (js ''x'')
   \<and> extractExifData (Inr tags_deg_only) =
      Inr (Some (empty_exif\<lparr>gps := Some \<lparr>latitude = JStr (js ''deg''), longitude = JStr (js ''x''),
         latitudeDecimal = Some (JNum NaN), longitudeDecimal = Some (JNum NaN)\<rparr>\<rparr>))"
  by (simp add: malformed_dms_def numeric_token_def extract_defs tags_deg_only_def convert_defs
      char_class_defs number_defs)

theorem extractExifData_gps_fields_witness:
  "extractExifData (Inr tags_deg_only) =
      Inr (Some (empty_exif\<lparr>gps := Some \<lparr>latitude = JStr (js ''deg''), longitude = JStr (js ''x''),
         latitudeDecimal = Some (JNum NaN), longitudeDecimal = Some (JNum NaN)\<rparr>\<rparr>))
   \<and> str_includes (js ''deg'') (js ''deg'')"
  using extractExifData_gps_fields [OF extract_deg_only] by (simp add: extract_deg_only empty_exif_def)

text \<open>
  C10. Whenever both GPS tags exist and the latitude description is a string containing
  \<open>deg\<close>, \<open>extractExifData\<close> assigns both decimal fields, each with what
  \<open>convertDMSToDecimal\<close> returns for the description; the longitude description is not
  checked, and when it is not a string the conversion throws inside, returns \<open>null\<close>,
  and \<open>longitudeDecimal\<close> is present with the value \<open>null\<close>.
\<close>

theorem extractExifData_assigns_both_decimals:
  assumes "t ''GPSLatitude'' = Some la" and "t ''GPSLongitude'' = Some lo"
    and "description la = JStr s" and "str_includes s (js ''deg'')"
  shows "\<exists>d g lad lod. extractExifData (Inr t) = Inr (Some d) \<and> gps d = Some g
           \<and> convertDMSToDecimal (JStr s) = Inr lad \<and> convertDMSToDecimal (description lo) = Inr lod
           \<and> latitudeDecimal g = Some lad \<and> longitudeDecimal g = Some lod
           \<and> (\<not> typeof_string (description lo) \<longrightarrow> longitudeDecimal g = Some JNull)"
proof -
  obtain lad lod where c: "convertDMSToDecimal (JStr s) = Inr lad"
    "convertDMSToDecimal (description lo) = Inr lod"
    using convert_returns by blast
  have n: "\<not> typeof_string (description lo) \<Longrightarrow> lod = JNull"
    using convert_not_string [of "description lo"] c by simp
  obtain d' where d': "set_gps_fields t (set_date_fields t empty_exif) = Inr d'"
    and e: "extractExifData (Inr t) = Inr (Some (set_camera_fields t d'))"
    using extractExifData_tags by blast
  from set_gps_fields_gated [OF assms c, of "set_date_fields t empty_exif"] d'
  have "gps d' = Some \<lparr>latitude = JStr s, longitude = description lo,
                        latitudeDecimal = Some lad, longitudeDecimal = Some lod\<rparr>"
    by auto
  with e c n show ?thesis
    by (auto simp: gps_set_camera_fields)
qed

theorem extractExifData_assigns_both_decimals_witness:
  "\<exists>d g. extractExifData (Inr tags_numeric_longitude) = Inr (Some d) \<and> gps d = Some g
      \<and> latitudeDecimal g = Some (JNum (Fin 51.5))
      \<and> longitudeDecimal g = Some JNull"
proof -
  have a: "tags_numeric_longitude ''GPSLatitude''
             = Some \<lparr>description = JStr (js ''51deg 30' 0\" N''), tvalue = JObject\<rparr>"
    and b: "tags_numeric_longitude ''GPSLongitude'' = Some \<lparr>description = JNum (Fin 3), tvalue = JObject\<rparr>"
    by (simp_all add: tags_numeric_longitude_def)
  have c: "str_includes (js ''51deg 30' 0\" N'') (js ''deg'')"
    by (simp add: js_def)
  have v: "convertDMSToDecimal (JStr (js ''51deg 30' 0\" N'')) = Inr (JNum (Fin 51.5))"
    by (simp add: convert_defs char_class_defs number_defs to_number_small_dyadic)
  from extractExifData_assigns_both_decimals [OF a b _ c] v show ?thesis
    by (auto simp: typeof_string_def)
qed

subsection \<open>extractLocationFromDescription\<close>

lemma digit_run_then_F:
  assumes "list_all is_digit g" and "c = 70 \<or> c = 102"
  shows "takeWhile is_digit (g @ c # post) = g" and "dropWhile is_digit (g @ c # post) = c # post"
proof -
  have "\<not> is_digit c" using assms(2) by (auto simp: is_digit_def)
  then have "case c # post of [] \<Rightarrow> True | x # t \<Rightarrow> \<not> is_digit x" by simp
  from takeWhile_digits [OF assms(1) this]
  show "takeWhile is_digit (g @ c # post) = g" and "dropWhile is_digit (g @ c # post) = c # post"
    by simp_all
qed

lemma floorMatch_Some:
  "floorMatch s = Some g \<Longrightarrow>
     \<exists>pre c post. s = pre @ g @ c # post \<and> g \<noteq> [] \<and> list_all is_digit g \<and> (c = 70 \<or> c = 102)
        \<and> (pre = [] \<or> \<not> is_digit (last pre))"
proof (induction s)
  case Nil
  then show ?case by simp
next
  case (Cons x xs)
  let ?t = "takeWhile is_digit (x # xs)" and ?d = "dropWhile is_digit (x # xs)"
  show ?case
  proof (cases "?t \<noteq> [] \<and> (case ?d of f # r \<Rightarrow> f = 70 \<or> f = 102 | [] \<Rightarrow> False)")
    case True
    then obtain f r where d: "?d = f # r" and f: "f = 70 \<or> f = 102"
      by (auto split: list.splits)
    from True Cons.prems have g: "g = ?t" by (simp del: takeWhile.simps dropWhile.simps)
    have "x # xs = ?t @ ?d" by (simp del: takeWhile.simps dropWhile.simps)
    then have "x # xs = [] @ g @ f # r" using g d by simp
    moreover have "list_all is_digit g"
      unfolding g list_all_iff using set_takeWhileD by fastforce
    moreover have "g \<noteq> []" using True g by simp
    ultimately show ?thesis using f by blast
  next
    case False
    with Cons.prems have "floorMatch xs = Some g" by (simp del: takeWhile.simps dropWhile.simps)
    from Cons.IH [OF this] obtain pre c post where
      xs: "xs = pre @ g @ c # post" and g: "g \<noteq> []" "list_all is_digit g"
      and c: "c = 70 \<or> c = 102" and p: "pre = [] \<or> \<not> is_digit (last pre)"
      by blast
    have "x # pre = [] \<or> \<not> is_digit (last (x # pre))"
    proof (cases "pre = []")
      case False
      with p show ?thesis by simp
    next
      case True
      have "\<not> is_digit x"
      proof
        assume dx: "is_digit x"
        then have ga: "list_all is_digit (x # g)" using g by simp
        have "takeWhile is_digit ((x # g) @ c # post) = x # g"
          and "dropWhile is_digit ((x # g) @ c # post) = c # post"
          using digit_run_then_F [OF ga c] by blast+
        with False xs True c show False by simp
      qed
      with True show ?thesis by simp
    qed
    moreover have "x # xs = (x # pre) @ g @ c # post" using xs by simp
    ultimately show ?thesis using g c by blast
  qed
qed

lemma floorMatch_found:
  assumes "is_digit d" and "c = 70 \<or> c = 102"
  shows "floorMatch (pre @ d # c # post) \<noteq> None"
proof (induction pre)
  case Nil
  have "list_all is_digit [d]" using assms by simp
  from digit_run_then_F [OF this assms(2), of post] show ?case
    using assms(2) by auto
next
  case (Cons x pre)
  then show ?case by (simp del: takeWhile.simps dropWhile.simps)
qed

lemma floorMatch_None_iff:
  "floorMatch s = None \<longleftrightarrow>
     \<not> (\<exists>pre d c post. s = pre @ d # c # post \<and> is_digit d \<and> (c = 70 \<or> c = 102))"
proof
  assume n: "floorMatch s = None"
  show "\<not> (\<exists>pre d c post. s = pre @ d # c # post \<and> is_digit d \<and> (c = 70 \<or> c = 102))"
    using floorMatch_found n by blast
next
  assume a: "\<not> (\<exists>pre d c post. s = pre @ d # c # post \<and> is_digit d \<and> (c = 70 \<or> c = 102))"
  show "floorMatch s = None"
  proof (rule ccontr)
    assume "floorMatch s \<noteq> None"
    then obtain g where "floorMatch s = Some g" by auto
    from floorMatch_Some [OF this] obtain pre c post where
      s: "s = pre @ g @ c # post" and g: "g \<noteq> []" "list_all is_digit g" and c: "c = 70 \<or> c = 102"
      by blast
    from g obtain g' d where gd: "g = g' @ [d]" by (cases g rule: rev_cases) auto
    with g have "is_digit d" by simp
    moreover have "s = (pre @ g') @ d # c # post" using s gd by simp
    ultimately show False using a c by blast
  qed
qed

lemma zoneMatch_Some:
  "zoneMatch s = Some g \<Longrightarrow> \<exists>pre c post. g = [c] \<and> is_letter c \<and> s = pre @ c # zone_marker # post"
proof (induction s rule: zoneMatch.induct)
  case 1
  then show ?case by simp
next
  case (2 c)
  then show ?case by simp
next
  case (3 c d cs)
  show ?case
  proof (cases "is_letter c \<and> d = zone_marker")
    case True
    with 3 have "g = [c]" by simp
    with True have "g = [c] \<and> is_letter c \<and> c # d # cs = [] @ c # zone_marker # cs" by simp
    then show ?thesis by blast
  next
    case False
    with 3 obtain pre c' post where "g = [c']" "is_letter c'" "d # cs = pre @ c' # zone_marker # post"
      by auto
    then have "g = [c'] \<and> is_letter c' \<and> c # d # cs = (c # pre) @ c' # zone_marker # post" by simp
    then show ?thesis by blast
  qed
qed

lemma zoneMatch_found:
  assumes "is_letter c"
  shows "zoneMatch (pre @ c # zone_marker # post) \<noteq> None"
proof (induction pre)
  case Nil
  show ?case using assms by simp
next
  case (Cons x pre)
  show ?case
  proof (cases pre)
    case Nil
    with Cons show ?thesis by simp
  next
    case (Cons y ys)
    with Cons.IH show ?thesis by simp
  qed
qed

lemma zoneMatch_None_iff:
  "zoneMatch s = None \<longleftrightarrow> \<not> (\<exists>pre c post. s = pre @ c # zone_marker # post \<and> is_letter c)"
  using zoneMatch_found zoneMatch_Some by (metis not_None_eq)


text \<open>
  C8, as stated. The claim takes a single uppercase letter before the zone marker as the
  zone and gives \<open>null\<close> when there is no match. The zone expression carries the \<open>i\<close>
  flag: a lowercase letter before the marker is a match and is returned as written.
\<close>

theorem extractLocationFromDescription_lowercase_zone_counterexample:
  "extractLocationFromDescription (js ''b'' @ [zone_marker])
     = \<lparr>hint_floor = JNull, hint_zone = JStr (js ''b''), rawDescription = js ''b'' @ [zone_marker]\<rparr>"
  by (simp add: extractLocationFromDescription_def char_class_defs zone_marker_def)

text \<open>
  C8, amended. For every input string, \<open>extractLocationFromDescription\<close> returns
  \<open>rawDescription\<close> unchanged; \<open>floor\<close> is a whole run of digits that is immediately
  followed by \<open>F\<close> or \<open>f\<close>, and \<open>null\<close> exactly when no digit of the string is
  immediately followed by \<open>F\<close> or \<open>f\<close>; \<open>zone\<close> is a single ASCII letter of either case
  that is immediately followed by the zone marker, and \<open>null\<close> exactly when there is no
  such letter. On \<open>4F B\<close> followed by the marker the result is floor \<open>4\<close> and zone \<open>B\<close>;
  on \<open>no pattern here\<close> both are \<open>null\<close>.
\<close>

theorem extractLocationFromDescription_spec:
  "rawDescription (extractLocationFromDescription s) = s
   \<and> (hint_floor (extractLocationFromDescription s) = JNull
        \<or> (\<exists>g pre c post. hint_floor (extractLocationFromDescription s) = JStr g
              \<and> s = pre @ g @ c # post \<and> g \<noteq> [] \<and> list_all is_digit g \<and> (c = 70 \<or> c = 102)
              \<and> (pre = [] \<or> \<not> is_digit (last pre))))
   \<and> (hint_floor (extractLocationFromDescription s) = JNull \<longleftrightarrow>
        \<not> (\<exists>pre d c post. s = pre @ d # c # post \<and> is_digit d \<and> (c = 70 \<or> c = 102)))
   \<and> (hint_zone (extractLocationFromDescription s) = JNull
        \<or> (\<exists>c pre post. hint_zone (extractLocationFromDescription s) = JStr [c]
              \<and> is_letter c \<and> s = pre @ c # zone_marker # post))
   \<and> (hint_zone (extractLocationFromDescription s) = JNull \<longleftrightarrow>
        \<not> (\<exists>pre c post. s = pre @ c # zone_marker # post \<and> is_letter c))
   \<and> extractLocationFromDescription (js ''4F B'' @ [zone_marker])
        = \<lparr>hint_floor = JStr (js ''4''), hint_zone = JStr (js ''B''),
           rawDescription = js ''4F B'' @ [zone_marker]\<rparr>
   \<and> extractLocationFromDescription (js ''no pattern here'')
        = \<lparr>hint_floor = JNull, hint_zone = JNull, rawDescription = js ''no pattern here''\<rparr>"
proof -
  let ?r = "extractLocationFromDescription s"
  have raw: "rawDescription ?r = s"
    by (simp add: extractLocationFromDescription_def)
  have fl: "hint_floor ?r = (case floorMatch s of Some g \<Rightarrow> JStr g | None \<Rightarrow> JNull)"
    and zo: "hint_zone ?r = (case zoneMatch s of Some g \<Rightarrow> JStr g | None \<Rightarrow> JNull)"
    by (simp_all add: extractLocationFromDescription_def)
  have f1: "hint_floor ?r = JNull
        \<or> (\<exists>g pre c post. hint_floor ?r = JStr g
              \<and> s = pre @ g @ c # post \<and> g \<noteq> [] \<and> list_all is_digit g \<and> (c = 70 \<or> c = 102)
              \<and> (pre = [] \<or> \<not> is_digit (last pre)))"
  proof (cases "floorMatch s")
    case None
    then show ?thesis by (simp add: fl)
  next
    case (Some g)
    from floorMatch_Some [OF this] Some show ?thesis
      by (auto simp add: fl)
  qed
  have f2: "hint_floor ?r = JNull \<longleftrightarrow>
        \<not> (\<exists>pre d c post. s = pre @ d # c # post \<and> is_digit d \<and> (c = 70 \<or> c = 102))"
    using floorMatch_None_iff [of s] by (cases "floorMatch s") (simp_all add: fl)
  have z1: "hint_zone ?r = JNull
        \<or> (\<exists>c pre post. hint_zone ?r = JStr [c] \<and> is_letter c \<and> s = pre @ c # zone_marker # post)"
  proof (cases "zoneMatch s")
    case None
    then show ?thesis by (simp add: zo)
  next
    case (Some g)
    from zoneMatch_Some [OF this] Some show ?thesis
      by (auto simp add: zo)
  qed
  have z2: "hint_zone ?r = JNull \<longleftrightarrow>
        \<not> (\<exists>pre c post. s = pre @ c # zone_marker # post \<and> is_letter c)"
    using zoneMatch_None_iff [of s] by (cases "zoneMatch s") (simp_all add: zo)
  have e1: "extractLocationFromDescription (js ''4F B'' @ [zone_marker])
        = \<lparr>hint_floor = JStr (js ''4''), hint_zone = JStr (js ''B''),
           rawDescription = js ''4F B'' @ [zone_marker]\<rparr>"
    by (simp add: extractLocationFromDescription_def char_class_defs zone_marker_def)
  have e2: "extractLocationFromDescription (js ''no pattern here'')
        = \<lparr>hint_floor = JNull, hint_zone = JNull, rawDescription = js ''no pattern here''\<rparr>"
    by (simp add: extractLocationFromDescription_def char_class_defs zone_marker_def)
  from raw f1 f2 z1 z2 e1 e2 show ?thesis by blast
qed

theorem extractLocationFromDescription_spec_witness:
  "hint_floor (extractLocationFromDescription (js ''12f'')) \<noteq> JNull
   \<and> hint_zone (extractLocationFromDescription (js ''12f'')) = JNull
   \<and> rawDescription (extractLocationFromDescription (js ''12f'')) = js ''12f''"
proof -
  have "js ''12f'' = [49] @ 50 # 102 # [] \<and> is_digit 50 \<and> (102 = (70::nat) \<or> 102 = (102::nat))"
    by (simp add: js_def is_digit_def)
  then have a: "\<exists>pre d c post. js ''12f'' = pre @ d # c # post \<and> is_digit d \<and> (c = 70 \<or> c = 102)"
    by blast
  have b: "\<not> (\<exists>pre c post. js ''12f'' = pre @ c # zone_marker # post \<and> is_letter c)"
  proof
    assume "\<exists>pre c post. js ''12f'' = pre @ c # zone_marker # post \<and> is_letter c"
    then obtain pre c post where "js ''12f'' = pre @ c # zone_marker # post" by blast
    then have "zone_marker \<in> set (js ''12f'')" by simp
    then show False by (simp add: js_def zone_marker_def)
  qed
  from extractLocationFromDescription_spec [of "js ''12f''"] a b show ?thesis by blast
qed

subsection \<open>The sample run, step by step\<close>

lemma london_lat: "convertDMSToDecimal (JStr (js ''51deg 30' 0\" N'')) = Inr (JNum (Fin 51.5))"
  by (simp add: convert_defs char_class_defs number_defs to_number_small_dyadic)

lemma london_lon: "convertDMSToDecimal (JStr (js ''0deg 15' 0\" W'')) = Inr (JNum (Fin (- 0.25)))"
  by (simp add: convert_defs char_class_defs number_defs to_number_small_dyadic)

lemma london_exif: "extractExifData (Inr tags_london) = Inr (Some exif_london)"
proof -
  have i: "str_includes (js ''51deg 30' 0\" N'') (js ''deg'')" by (simp add: js_def)
  show ?thesis
    by (simp add: extract_defs tags_london_def london_lat london_lon i try_catch_def bind_exn_def exif_london_def)
qed

lemma london_date_parts:
  "date_from_description (JStr (js ''2024:03:15 10:30:00'')) = Inr date_london"
  by (simp add: date_from_description_def parseInt_def nth_opt_def digits_val_def char_class_defs
      date_london_def to_number_small_dyadic)

lemma london_date: "extractDateTime (Some exif_london) = Inr (Some date_london)"
proof -
  have t: "js ''2024:03:15 10:30:00'' \<noteq> []" by (simp add: js_def)
  show ?thesis
    by (simp add: extractDateTime_def extractDateTime_body_def exif_london_def empty_exif_def t
        london_date_parts try_catch_def bind_exn_def)
qed

lemma london_coords: "extractGPSCoordinates (Some exif_london) = Inr (Some coords_london)"
  by (simp add: extractGPSCoordinates_def extractGPSCoordinates_body_def exif_london_def
      empty_exif_def coords_london_def try_catch_def)

lemma london_metadata:
  "file_metadata (sample_env cfg bad) i f = Inr (Some exif_london, Some date_london, Some coords_london)"
  by (simp add: file_metadata_def sample_env_def london_exif london_date london_coords bind_exn_def)


subsection \<open>The loop of handleSubmit\<close>

lemma store_and_persist_summary:
  assumes "store_and_persist e fm n i f x dt wd gd w = (r, w')"
  shows "\<exists>cs rows. calls w' = calls w @ cs \<and> photos w' = photos w @ rows \<and> file_outcome e f i r cs rows"
proof -
  define p where "p = \<lparr>path_project = projectId fm, path_millis = date_now e i, path_index = i,
                      path_ext = fileExt f\<rparr>"
  show ?thesis
  proof (cases "storage_upload e i p f")
    case (Some m)
    with assms have r: "r = Some (Error (js ''Error uploading file: '' @ m))"
      and w': "calls w' = calls w @ [Upload i p]" "photos w' = photos w @ []"
      by (auto simp add: store_and_persist_def p_def Let_def)
    have "file_outcome e f i r [Upload i p] []"
      by (simp add: file_outcome_def call_failure_def Some r)
    with w' show ?thesis by blast
  next
    case None
    show ?thesis
    proof (cases "case dt of Some d \<Rightarrow> toISOString e d | None \<Rightarrow> Inr JNull")
      case (Inl y)
      with assms None have r: "r = Some y"
        and w': "calls w' = calls w @ [Upload i p]" "photos w' = photos w @ []"
        by (auto simp add: store_and_persist_def p_def Let_def)
      have "file_outcome e f i r [Upload i p] []"
        by (simp add: file_outcome_def call_failure_def None r)
      with w' show ?thesis by blast
    next
      case (Inr taken)
      define row where "row = \<lparr>project_id = projectId fm, uploaded_by = user_id fm,
                                  storage_path = p,
                                  photo_description = form_description fm,
                                  location_description = locationDescription fm,
                                  exif_data = x, weather_data = wd,
                                  geo_data = gd, taken_at = taken,
                                  ai_processed = False, ai_processing_status = js ''pending''\<rparr>"
      show ?thesis
      proof (cases "db_insert e i row")
        case (Some m)
        with assms None Inr have r: "r = Some (Error (js ''Error saving photo data: '' @ m))"
          and w': "calls w' = calls w @ [Upload i p, Insert i row]" "photos w' = photos w @ []"
          by (auto simp add: store_and_persist_def p_def row_def Let_def)
        have "file_outcome e f i r [Upload i p, Insert i row] []"
          using None Some by (simp add: file_outcome_def call_failure_def r)
        with w' show ?thesis by blast
      next
        case ins: None
        with assms None Inr have r: "r = None"
          and w': "calls w' = calls w @ [Upload i p, Insert i row]" "photos w' = photos w @ [row]"
          by (auto simp add: store_and_persist_def p_def row_def Let_def)
        have "file_outcome e f i r [Upload i p, Insert i row] [row]"
          using None ins by (simp add: file_outcome_def call_failure_def r row_def p_def)
        with w' show ?thesis by blast
      qed
    qed
  qed
qed

lemma file_outcome_Load:
  assumes "file_outcome e f i r cs rows"
  shows "file_outcome e f i r (Load i # cs) rows"
  using assms by (simp add: file_outcome_def call_failure_def)

lemma ingest_file_summary:
  assumes "ingest_file e fm n i f w = (r, w')"
  shows "\<exists>cs rows. calls w' = calls w @ cs \<and> photos w' = photos w @ rows \<and> file_outcome e f i r cs rows"
proof -
  define w1 where "w1 = w\<lparr>uploadStatus := Processing (i + 1) n, calls := calls w @ [Load i]\<rparr>"
  have stop: "file_outcome e f i (Some y) [Load i] []" for y
    by (simp add: file_outcome_def call_failure_def)
  show ?thesis
  proof (cases "file_metadata e i f")
    case (Inl y)
    with assms have "r = Some y" "calls w' = calls w @ [Load i]" "photos w' = photos w @ []"
      by (auto simp add: ingest_file_def Let_def)
    with stop show ?thesis by blast
  next
    case (Inr md)
    obtain x dt g where md: "md = (x, dt, g)" by (cases md) auto
    show ?thesis
    proof (cases "enrich e i g dt")
      case (Inl y)
      with assms Inr md have "r = Some y" "calls w' = calls w @ [Load i]" "photos w' = photos w @ []"
        by (auto simp add: ingest_file_def Let_def)
      with stop show ?thesis by blast
    next
      case en: (Inr wg)
      obtain wd gd where wg: "wg = (wd, gd)" by (cases wg) auto
      from assms Inr md en wg have "store_and_persist e fm n i f x dt wd gd w1 = (r, w')"
        by (simp add: ingest_file_def Let_def w1_def)
      from store_and_persist_summary [OF this] obtain cs rows where
        c: "calls w' = calls w1 @ cs" and p: "photos w' = photos w1 @ rows"
        and o: "file_outcome e f i r cs rows" by blast
      have "calls w' = calls w @ (Load i # cs)" "photos w' = photos w @ rows"
        using c p by (simp_all add: w1_def)
      with file_outcome_Load [OF o] show ?thesis by blast
    qed
  qed
qed


lemma batch_outcome_stop:
  assumes "file_outcome e f i0 (Some y) cs []"
  shows "batch_outcome e (f # fs) i0 (Some y) cs []"
  using assms by (auto simp add: file_outcome_def batch_outcome_def)

lemma batch_outcome_step:
  assumes f: "file_outcome e f i0 None cs1 rows1"
    and b: "batch_outcome e fs (Suc i0) r cs2 rows2"
  shows "batch_outcome e (f # fs) i0 r (cs1 @ cs2) (rows1 @ rows2)"
proof -
  from f obtain row where rows1: "rows1 = [row]" and idx: "path_index (storage_path row) = i0"
    by (auto simp add: file_outcome_def)
  from f have c1: "\<forall>c\<in>set cs1. call_index c = i0"
    and ok1: "\<forall>c\<in>set cs1. \<forall>msg. call_failure e f c \<noteq> Some msg"
    by (auto simp add: file_outcome_def)
  have m: "map (\<lambda>row. path_index (storage_path row)) (rows1 @ rows2)
             = [i0..<i0 + length (rows1 @ rows2)]"
  proof -
    have b1: "map (\<lambda>row. path_index (storage_path row)) rows2 = [Suc i0..<Suc i0 + length rows2]"
      using b unfolding batch_outcome_def by blast
    have u: "[i0..<i0 + length (rows1 @ rows2)] = i0 # [Suc i0..<Suc i0 + length rows2]"
      unfolding rows1 by (subst upt_conv_Cons) simp_all
    show ?thesis
      unfolding u using b1 idx by (simp only: rows1 append_Cons append_Nil list.map)
  qed
  have l: "length (rows1 @ rows2) \<le> length (f # fs)"
    using b by (simp add: rows1 batch_outcome_def)
  have r1: "\<forall>c\<in>set (cs1 @ cs2). i0 \<le> call_index c \<and> call_index c \<le> i0 + length (rows1 @ rows2)"
    using b c1 by (auto simp add: rows1 batch_outcome_def)
  have r2: "\<forall>c\<in>set (cs1 @ cs2). \<forall>msg. call_failure e ((f # fs) ! (call_index c - i0)) c = Some msg
            \<longrightarrow> r = Some (Error msg) \<and> call_index c = i0 + length (rows1 @ rows2)
                \<and> call_index c < i0 + length (f # fs)"
  proof (intro ballI allI impI)
    fix c msg
    assume c: "c \<in> set (cs1 @ cs2)"
      and fail: "call_failure e ((f # fs) ! (call_index c - i0)) c = Some msg"
    show "r = Some (Error msg) \<and> call_index c = i0 + length (rows1 @ rows2)
            \<and> call_index c < i0 + length (f # fs)"
    proof (cases "c \<in> set cs1")
      case True
      with c1 have "call_index c = i0" by simp
      with fail ok1 True show ?thesis by simp
    next
      case False
      with c have c2: "c \<in> set cs2" by simp
      with b have ge: "Suc i0 \<le> call_index c" by (simp add: batch_outcome_def)
      then have "(f # fs) ! (call_index c - i0) = fs ! (call_index c - Suc i0)"
        by (simp add: nth_Cons')
      with fail have "call_failure e (fs ! (call_index c - Suc i0)) c = Some msg" by simp
      with b c2 show ?thesis by (auto simp add: rows1 batch_outcome_def)
    qed
  qed
  from m l r1 r2 show ?thesis unfolding batch_outcome_def by blast
qed

lemma ingest_from_summary:
  "ingest_from e fm n i0 fs w = (r, w') \<Longrightarrow>
     \<exists>cs rows. calls w' = calls w @ cs \<and> photos w' = photos w @ rows \<and> batch_outcome e fs i0 r cs rows"
proof (induction fs arbitrary: i0 w)
  case Nil
  then have "r = None" "w' = w" by simp_all
  then have "calls w' = calls w @ [] \<and> photos w' = photos w @ [] \<and> batch_outcome e [] i0 r [] []"
    by (simp add: batch_outcome_def)
  then show ?case by blast
next
  case (Cons f fs)
  obtain r1 w1 where s: "ingest_file e fm n i0 f w = (r1, w1)" by (cases "ingest_file e fm n i0 f w")
  from ingest_file_summary [OF s] obtain cs1 rows1 where
    c1: "calls w1 = calls w @ cs1" and p1: "photos w1 = photos w @ rows1"
    and o1: "file_outcome e f i0 r1 cs1 rows1" by blast
  show ?case
  proof (cases r1)
    case (Some y)
    with s Cons.prems have e: "r = Some y" "w' = w1" by simp_all
    from o1 Some have "rows1 = []" by (simp add: file_outcome_def)
    with o1 Some have "batch_outcome e (f # fs) i0 (Some y) cs1 []"
      by (intro batch_outcome_stop) simp
    with e c1 p1 \<open>rows1 = []\<close> show ?thesis by blast
  next
    case None
    with s Cons.prems have "ingest_from e fm n (Suc i0) fs w1 = (r, w')" by simp
    from Cons.IH [OF this] obtain cs2 rows2 where
      c2: "calls w' = calls w1 @ cs2" and p2: "photos w' = photos w1 @ rows2"
      and o2: "batch_outcome e fs (Suc i0) r cs2 rows2" by blast
    from o1 None have "file_outcome e f i0 None cs1 rows1" by simp
    from batch_outcome_step [OF this o2]
    have "batch_outcome e (f # fs) i0 r (cs1 @ cs2) (rows1 @ rows2)" .
    moreover have "calls w' = calls w @ (cs1 @ cs2)" "photos w' = photos w @ (rows1 @ rows2)"
      using c1 c2 p1 p2 by simp_all
    ultimately show ?thesis by blast
  qed
qed

text \<open>
  C2. For every batch, if a storage upload or a database insert that \<open>handleSubmit\<close>
  made for file \<open>i\<close> came back with an error message \<open>m\<close>, then the message shown to
  the caller is the thrown one, which ends with \<open>m\<close>, and loading is switched off; no call
  was made for a file after \<open>i\<close>; the rows that were in the table are still there, and
  the rows added are exactly those of the files before \<open>i\<close>, in order.
\<close>

theorem handleSubmit_aborts_at_failed_file:
  assumes c: "c \<in> set (new_calls w (handleSubmit e fm files w))"
    and fail: "(\<exists>p. c = Upload i p \<and> storage_upload e i p (files ! i) = Some m
                   \<and> msg = js ''Error uploading file: '' @ m)
               \<or> (\<exists>row. c = Insert i row \<and> db_insert e i row = Some m
                   \<and> msg = js ''Error saving photo data: '' @ m)"
  shows "error (handleSubmit e fm files w) = JStr msg
         \<and> isLoading (handleSubmit e fm files w) = False
         \<and> i < length files
         \<and> (\<forall>c'\<in>set (new_calls w (handleSubmit e fm files w)). call_index c' \<le> i)
         \<and> take (length (photos w)) (photos (handleSubmit e fm files w)) = photos w
         \<and> map (\<lambda>row. path_index (storage_path row)) (new_photos w (handleSubmit e fm files w)) = [0..<i]"
proof -
  let ?wf = "handleSubmit e fm files w"
  define w0 where "w0 = w\<lparr>isLoading := True, error := JNull, uploadProgress := 0, uploadStatus := Preparing\<rparr>"
  have ci: "call_index c = i" using fail by auto
  have cf: "call_failure e (files ! i) c = Some msg"
    using fail by (auto simp add: call_failure_def)
  have run: "length files \<noteq> 0 \<and> truthy (JStr (projectId fm))"
  proof (rule ccontr)
    assume "\<not> (length files \<noteq> 0 \<and> truthy (JStr (projectId fm)))"
    then have "calls ?wf = calls w" by (auto simp add: handleSubmit_def)
    with c show False by (simp add: new_calls_def)
  qed
  obtain r w' where s: "ingest_from e fm (length files) 0 files w0 = (r, w')"
    by (cases "ingest_from e fm (length files) 0 files w0")
  from ingest_from_summary [OF s] obtain cs rows where
    cs: "calls w' = calls w0 @ cs" and rows: "photos w' = photos w0 @ rows"
    and o: "batch_outcome e files 0 r cs rows" by blast
  have wf: "?wf = (case r of
               None \<Rightarrow> w'\<lparr>uploadStatus := Complete, pushed_route := Some (projectId fm)\<rparr>
             | Some err \<Rightarrow> w'\<lparr>error := (if truthy (JStr (message err)) then JStr (message err)
                             else JStr (js ''An error occurred during upload'')),
                   isLoading := False\<rparr>)"
    using run s by (simp add: handleSubmit_def w0_def Let_def split: option.splits)
  have calls_wf: "calls ?wf = calls w @ cs" and photos_wf: "photos ?wf = photos w @ rows"
    using cs rows by (simp_all add: wf w0_def split: option.splits)
  have nc: "new_calls w ?wf = cs" and np: "new_photos w ?wf = rows"
    by (simp_all add: new_calls_def new_photos_def calls_wf photos_wf)
  from c nc have cin: "c \<in> set cs" by simp
  from o cin cf ci have r: "r = Some (Error msg)" and len: "i = length rows" and lt: "i < length files"
    by (auto simp add: batch_outcome_def)
  have ne: "msg \<noteq> []" using fail by (auto simp add: js_def)
  have e1: "error ?wf = JStr msg" and e2: "isLoading ?wf = False"
    using ne by (simp_all add: wf r)
  have e3: "\<forall>c'\<in>set cs. call_index c' \<le> i"
    using o len by (auto simp add: batch_outcome_def)
  have e4: "map (\<lambda>row. path_index (storage_path row)) rows = [0..<i]"
    using o len by (simp add: batch_outcome_def)
  show ?thesis
    using e1 e2 lt e3 e4 by (simp add: nc np photos_wf)
qed


lemma sample_weather:
  "getWeatherData both_keys weather_times_out la lo ts = Inr JNull"
  by (simp add: getWeatherData_def both_keys_def weather_times_out_def try_catch_def bind_exn_def js_def)

lemma sample_geocode:
  "getLocationFromCoordinates both_keys geocode_answers la lo = Inr JObject"
  by (simp add: getLocationFromCoordinates_def both_keys_def geocode_answers_def first_result_def
      try_catch_def bind_exn_def js_def)

lemma sample_enrich:
  "enrich (sample_env both_keys bad) i (Some coords_london) (Some date_london) = Inr (JNull, JObject)"
  by (simp add: enrich_def sample_env_def sample_weather sample_geocode bind_exn_def)

lemma sample_ingest:
  "ingest_file (sample_env both_keys bad) fm n i f w =
     store_and_persist (sample_env both_keys bad) fm n i f (Some exif_london) (Some date_london)
       JNull JObject (w\<lparr>uploadStatus := Processing (i + 1) n, calls := calls w @ [Load i]\<rparr>)"
  by (simp add: ingest_file_def london_metadata sample_enrich Let_def)

lemma sample_ext:
  "fileExt \<lparr>name = js ''a.jpg'', bytes = []\<rparr> = js ''jpg''"
  "fileExt \<lparr>name = js ''b.jpg'', bytes = []\<rparr> = js ''jpg''"
  by (simp_all add: fileExt_def js_def)

lemma sample_iso: "toISOString (sample_env cfg bad) d = Inr (JStr (js ''2024-03-15T10:30:00.000Z''))"
  by (simp add: toISOString_def sample_env_def)

lemma sample_services:
  "i \<noteq> bad \<Longrightarrow> storage_upload (sample_env cfg bad) i p f = None"
  "storage_upload (sample_env cfg bad) bad p f = Some (js ''quota exceeded'')"
  "db_insert (sample_env cfg bad) i r = None"
  "date_now (sample_env cfg bad) i = 1710498600000 + i"
  by (simp_all add: sample_env_def)

lemma sample_run:
  "handleSubmit (sample_env both_keys 1) sample_form sample_files world0 =
      \<lparr>storage = [(sample_path 0, \<lparr>name = js ''a.jpg'', bytes = []\<rparr>)], photos = [sample_row 0],
       calls = [Load 0, Upload 0 (sample_path 0), Insert 0 (sample_row 0), Load 1,
                Upload 1 (sample_path 1)],
       error = JStr (js ''Error uploading file: quota exceeded''),
       isLoading = False, uploadProgress = 100 / 3, uploadStatus = Uploading 2 3,
       pushed_route = None\<rparr>"
  by (simp add: handleSubmit_def world0_def sample_files_def sample_ingest store_and_persist_def
      Let_def sample_services sample_iso sample_form_def sample_path_def sample_row_def
      fileExt_def js_def)


theorem handleSubmit_aborts_at_failed_file_witness:
  "Upload 1 (sample_path 1) \<in> set (new_calls world0 (handleSubmit (sample_env both_keys 1) sample_form sample_files world0))
   \<and> storage_upload (sample_env both_keys 1) 1 (sample_path 1) (sample_files ! 1) = Some (js ''quota exceeded'')
   \<and> error (handleSubmit (sample_env both_keys 1) sample_form sample_files world0)
        = JStr (js ''Error uploading file: quota exceeded'')
   \<and> photos (handleSubmit (sample_env both_keys 1) sample_form sample_files world0) = [sample_row 0]
   \<and> map (\<lambda>row. path_index (storage_path row))
         (new_photos world0 (handleSubmit (sample_env both_keys 1) sample_form sample_files world0)) = [0..<1]"
proof -
  let ?wf = "handleSubmit (sample_env both_keys 1) sample_form sample_files world0"
  have c: "Upload 1 (sample_path 1) \<in> set (new_calls world0 ?wf)"
    unfolding sample_run new_calls_def by (simp add: world0_def)
  have u: "storage_upload (sample_env both_keys 1) 1 (sample_path 1) (sample_files ! 1) = Some (js ''quota exceeded'')"
    by (simp add: sample_services)
  have m: "js ''Error uploading file: quota exceeded'' = js ''Error uploading file: '' @ js ''quota exceeded''"
    by (simp add: js_def)
  have "(\<exists>p. Upload 1 (sample_path 1) = Upload 1 p \<and> storage_upload (sample_env both_keys 1) 1 p (sample_files ! 1) = Some (js ''quota exceeded'')
             \<and> js ''Error uploading file: quota exceeded'' = js ''Error uploading file: '' @ js ''quota exceeded'')
        \<or> (\<exists>row. Upload 1 (sample_path 1) = Insert 1 row \<and> db_insert (sample_env both_keys 1) 1 row = Some (js ''quota exceeded'')
             \<and> js ''Error uploading file: quota exceeded'' = js ''Error saving photo data: '' @ js ''quota exceeded'')"
    using u m by blast
  from handleSubmit_aborts_at_failed_file [OF c this] c u
  have "Upload 1 (sample_path 1) \<in> set (new_calls world0 ?wf)
   \<and> storage_upload (sample_env both_keys 1) 1 (sample_path 1) (sample_files ! 1) = Some (js ''quota exceeded'')
   \<and> error ?wf = JStr (js ''Error uploading file: quota exceeded'')
   \<and> map (\<lambda>row. path_index (storage_path row)) (new_photos world0 ?wf) = [0..<1]"
    by blast
  moreover have "photos ?wf = [sample_row 0]"
    unfolding sample_run by simp
  ultimately show ?thesis by blast
qed

subsection \<open>Enrichment\<close>

lemma getWeatherData_keyed:
  assumes "truthy (OPENWEATHER_API_KEY cfg)"
  shows "getWeatherData cfg api la lo ts =
           (case api la lo ts (OPENWEATHER_API_KEY cfg) of Inl err \<Rightarrow> Inr JNull | Inr data \<Rightarrow> Inr data)"
  using assms by (simp add: getWeatherData_def try_catch_def bind_exn_def split: sum.splits)

lemma getLocationFromCoordinates_keyed:
  assumes "truthy (GOOGLE_MAPS_API_KEY cfg)"
  shows "getLocationFromCoordinates cfg api la lo =
           (case api la lo (GOOGLE_MAPS_API_KEY cfg) of
              Inl err \<Rightarrow> Inr JNull
            | Inr data \<Rightarrow> (case first_result data of Inl err \<Rightarrow> Inr JNull | Inr v \<Rightarrow> Inr v))"
  using assms by (simp add: getLocationFromCoordinates_def try_catch_def bind_exn_def split: sum.splits)

lemma getWeatherData_unkeyed:
  assumes "\<not> truthy (OPENWEATHER_API_KEY cfg)"
  shows "getWeatherData cfg api la lo ts = Inl (Error (js ''Missing OpenWeather API key''))"
  using assms by (simp add: getWeatherData_def)

lemma getLocationFromCoordinates_unkeyed:
  assumes "\<not> truthy (GOOGLE_MAPS_API_KEY cfg)"
  shows "getLocationFromCoordinates cfg api la lo = Inl (Error (js ''Missing Google Maps API key''))"
  using assms by (simp add: getLocationFromCoordinates_def)

lemma file_metadata_returns: "\<exists>x dt g. file_metadata e i f = Inr (x, dt, g)"
proof -
  have "\<exists>x. extractExifData (exif_load e i f) = Inr x"
  proof (cases "exif_load e i f")
    case (Inl y)
    then show ?thesis by (simp add: extractExifData_throw)
  next
    case (Inr t)
    with extractExifData_tags [of t] show ?thesis by auto
  qed
  then obtain x where x: "extractExifData (exif_load e i f) = Inr x" by blast
  have "\<exists>dt. extractDateTime x = Inr dt"
    by (cases "extractDateTime_body x") (simp_all add: extractDateTime_def try_catch_def)
  moreover have "\<exists>g. extractGPSCoordinates x = Inr g"
    by (cases "extractGPSCoordinates_body x") (simp_all add: extractGPSCoordinates_def try_catch_def)
  ultimately show ?thesis
    by (cases x) (auto simp add: file_metadata_def x bind_exn_def)
qed

lemma weather_lookup:
  assumes "truthy (OPENWEATHER_API_KEY cfg)"
  shows "\<exists>wd. getWeatherData cfg api la lo ts = Inr wd
           \<and> ((\<exists>err. api la lo ts (OPENWEATHER_API_KEY cfg) = Inl err) \<longrightarrow> wd = JNull)"
  by (cases "api la lo ts (OPENWEATHER_API_KEY cfg)") (simp_all add: getWeatherData_keyed [OF assms])

lemma geocode_lookup:
  assumes "truthy (GOOGLE_MAPS_API_KEY cfg)"
  shows "\<exists>gd. getLocationFromCoordinates cfg api la lo = Inr gd
           \<and> ((\<exists>err. api la lo (GOOGLE_MAPS_API_KEY cfg) = Inl err) \<longrightarrow> gd = JNull)"
proof (cases "api la lo (GOOGLE_MAPS_API_KEY cfg)")
  case (Inl err)
  then show ?thesis by (simp add: getLocationFromCoordinates_keyed [OF assms])
next
  case (Inr data)
  then show ?thesis
    by (cases "first_result data") (simp_all add: getLocationFromCoordinates_keyed [OF assms])
qed

lemma store_and_persist_accepts:
  assumes "\<forall>p. storage_upload e i p f = None" and "\<forall>row. db_insert e i row = None"
    and "\<forall>d. dt = Some d \<longrightarrow> get_time e d \<noteq> NaN"
  shows "\<exists>row w'. store_and_persist e fm n i f x dt wd gd w = (None, w')
           \<and> photos w' = photos w @ [row] \<and> weather_data row = wd \<and> geo_data row = gd
           \<and> ai_processing_status row = js ''pending''"
  using assms by (cases dt) (simp_all add: store_and_persist_def Let_def toISOString_def)

text \<open>
  C3, as stated. The claim has the record persisted whenever a lookup fails. With the
  weather credential configured and the geocoding credential absent, the weather request
  times out and gives \<open>null\<close>, and then the geocoding call throws: the iteration ends
  with nothing uploaded and no row.
\<close>

theorem lookup_error_without_record_counterexample:
  "getWeatherData weather_key_only weather_times_out (lat coords_london) (lon coords_london)
      (Fin 1710498600) = Inr JNull
   \<and> ingest_file (sample_env weather_key_only 7) sample_form 1 0 \<lparr>name = js ''a.jpg'', bytes = []\<rparr> world0
       = (Some (Error (js ''Missing Google Maps API key'')),
          world0\<lparr>uploadStatus := Processing (0 + 1) 1, calls := calls world0 @ [Load 0]\<rparr>)
   \<and> photos (world0\<lparr>uploadStatus := Processing (0 + 1) 1, calls := calls world0 @ [Load 0]\<rparr>) = []"
proof -
  have w: "getWeatherData weather_key_only weather_times_out la lo ts = Inr JNull" for la lo ts
    by (simp add: getWeatherData_def weather_key_only_def weather_times_out_def try_catch_def
        bind_exn_def js_def)
  have g: "getLocationFromCoordinates weather_key_only api la lo
             = Inl (Error (js ''Missing Google Maps API key''))" for api la lo
    by (simp add: getLocationFromCoordinates_def weather_key_only_def)
  have "enrich (sample_env weather_key_only 7) 0 (Some coords_london) (Some date_london)
          = Inl (Error (js ''Missing Google Maps API key''))"
    by (simp add: enrich_def sample_env_def w g bind_exn_def)
  then have "ingest_file (sample_env weather_key_only 7) sample_form 1 0 \<lparr>name = js ''a.jpg'', bytes = []\<rparr> world0
       = (Some (Error (js ''Missing Google Maps API key'')),
          world0\<lparr>uploadStatus := Processing (0 + 1) 1, calls := calls world0 @ [Load 0]\<rparr>)"
    by (simp add: ingest_file_def london_metadata Let_def)
  moreover have "photos (world0\<lparr>uploadStatus := Processing (0 + 1) 1, calls := calls world0 @ [Load 0]\<rparr>) = []"
    by (simp add: world0_def)
  ultimately show ?thesis using w by simp
qed

lemma ingest_file_enriched:
  assumes meta: "file_metadata e i f = Inr (x, dt, g)"
    and gkey: "g \<noteq> None \<longrightarrow> truthy (GOOGLE_MAPS_API_KEY (config e))"
    and wkey: "g \<noteq> None \<and> dt \<noteq> None \<longrightarrow> truthy (OPENWEATHER_API_KEY (config e))"
    and valid: "\<forall>d. dt = Some d \<longrightarrow> get_time e d \<noteq> NaN"
    and up: "\<forall>p. storage_upload e i p f = None" and ins: "\<forall>row. db_insert e i row = None"
  shows "\<exists>row w'. ingest_file e fm n i f w = (None, w') \<and> photos w' = photos w @ [row]
           \<and> ai_processing_status row = js ''pending''
           \<and> (\<forall>c d. g = Some c \<and> dt = Some d
                 \<and> (\<exists>err. weather_api e i (lat c) (lon c) (num_floor (num_div_const (get_time e d) 1000))
                            (OPENWEATHER_API_KEY (config e)) = Inl err)
                \<longrightarrow> getWeatherData (config e) (weather_api e i) (lat c) (lon c)
                       (num_floor (num_div_const (get_time e d) 1000)) = Inr JNull
                    \<and> weather_data row = JNull)
           \<and> (g = None \<or> dt = None \<longrightarrow> weather_data row = JNull)
           \<and> (\<forall>c. g = Some c
                 \<and> (\<exists>err. geocode_api e i (lat c) (lon c) (GOOGLE_MAPS_API_KEY (config e)) = Inl err)
                \<longrightarrow> getLocationFromCoordinates (config e) (geocode_api e i) (lat c) (lon c) = Inr JNull
                    \<and> geo_data row = JNull)"
proof -
  let ?w1 = "w\<lparr>uploadStatus := Processing (i + 1) n, calls := calls w @ [Load i]\<rparr>"
  have "\<exists>wd gd. enrich e i g dt = Inr (wd, gd)
          \<and> (\<forall>c d. g = Some c \<and> dt = Some d
                 \<and> (\<exists>err. weather_api e i (lat c) (lon c) (num_floor (num_div_const (get_time e d) 1000))
                            (OPENWEATHER_API_KEY (config e)) = Inl err)
                \<longrightarrow> getWeatherData (config e) (weather_api e i) (lat c) (lon c)
                       (num_floor (num_div_const (get_time e d) 1000)) = Inr JNull
                    \<and> wd = JNull)
          \<and> (g = None \<or> dt = None \<longrightarrow> wd = JNull)
          \<and> (\<forall>c. g = Some c
                 \<and> (\<exists>err. geocode_api e i (lat c) (lon c) (GOOGLE_MAPS_API_KEY (config e)) = Inl err)
                \<longrightarrow> getLocationFromCoordinates (config e) (geocode_api e i) (lat c) (lon c) = Inr JNull
                    \<and> gd = JNull)"
  proof (cases g)
    case None
    then show ?thesis by (simp add: enrich_def)
  next
    case (Some c)
    with gkey have gk: "truthy (GOOGLE_MAPS_API_KEY (config e))" by simp
    from geocode_lookup [OF gk, of "geocode_api e i" "lat c" "lon c"]
    obtain gd where gd: "getLocationFromCoordinates (config e) (geocode_api e i) (lat c) (lon c) = Inr gd"
      and gn: "(\<exists>err. geocode_api e i (lat c) (lon c) (GOOGLE_MAPS_API_KEY (config e)) = Inl err)
                 \<longrightarrow> gd = JNull"
      by blast
    show ?thesis
    proof (cases dt)
      case None
      have "enrich e i g dt = Inr (JNull, gd)"
        by (simp add: enrich_def Some None gd bind_exn_def)
      with Some None gd gn show ?thesis by auto
    next
      case d: (Some d)
      with Some wkey have wk: "truthy (OPENWEATHER_API_KEY (config e))" by simp
      let ?ts = "num_floor (num_div_const (get_time e d) 1000)"
      from weather_lookup [OF wk, of "weather_api e i" "lat c" "lon c" ?ts]
      obtain wd where wd: "getWeatherData (config e) (weather_api e i) (lat c) (lon c) ?ts = Inr wd"
        and wn: "(\<exists>err. weather_api e i (lat c) (lon c) ?ts (OPENWEATHER_API_KEY (config e)) = Inl err)
                   \<longrightarrow> wd = JNull"
        by blast
      have "enrich e i g dt = Inr (wd, gd)"
        by (simp add: enrich_def Some d wd gd bind_exn_def)
      with Some d wd wn gd gn show ?thesis by auto
    qed
  qed
  then obtain wd gd where en: "enrich e i g dt = Inr (wd, gd)"
    and wprop: "\<forall>c d. g = Some c \<and> dt = Some d
                 \<and> (\<exists>err. weather_api e i (lat c) (lon c) (num_floor (num_div_const (get_time e d) 1000))
                            (OPENWEATHER_API_KEY (config e)) = Inl err)
                \<longrightarrow> getWeatherData (config e) (weather_api e i) (lat c) (lon c)
                       (num_floor (num_div_const (get_time e d) 1000)) = Inr JNull
                    \<and> wd = JNull"
    and wnone: "g = None \<or> dt = None \<longrightarrow> wd = JNull"
    and gprop: "\<forall>c. g = Some c
                 \<and> (\<exists>err. geocode_api e i (lat c) (lon c) (GOOGLE_MAPS_API_KEY (config e)) = Inl err)
                \<longrightarrow> getLocationFromCoordinates (config e) (geocode_api e i) (lat c) (lon c) = Inr JNull
                    \<and> gd = JNull"
    by blast
  have ing: "ingest_file e fm n i f w = store_and_persist e fm n i f x dt wd gd ?w1"
    by (simp add: ingest_file_def meta en Let_def)
  from store_and_persist_accepts [OF up ins valid, of fm n x wd gd ?w1]
  obtain row w' where sp: "store_and_persist e fm n i f x dt wd gd ?w1 = (None, w')"
    and r: "photos w' = photos w @ [row]" "weather_data row = wd" "geo_data row = gd"
    "ai_processing_status row = js ''pending''"
    by auto
  have "ingest_file e fm n i f w = (None, w')" using ing sp by simp
  with r wprop wnone gprop show ?thesis by blast
qed

text \<open>
  C3, amended. When the credential of a lookup is configured, a network or provider
  error during the weather or geocoding lookup yields \<open>null\<close> and nothing is thrown.
  For every ingested file, with whatever metadata was found: when the credentials of
  the lookups that are made are configured (geocoding for a file with coordinates,
  weather for one that also has a date), the date, if any, is valid, and the storage
  service and the database accept the file, the iteration throws nothing and adds a row
  with status \<open>pending\<close>; the row has \<open>weather_data\<close> \<open>null\<close> when the weather request
  failed or no weather lookup was made, and \<open>geo_data\<close> \<open>null\<close> when the geocoding
  request failed.
\<close>

theorem enrichment_error_gives_null_and_pending:
  "(truthy (OPENWEATHER_API_KEY cfg) \<and> wapi la lo ts (OPENWEATHER_API_KEY cfg) = Inl err
      \<longrightarrow> getWeatherData cfg wapi la lo ts = Inr JNull)
   \<and> (truthy (GOOGLE_MAPS_API_KEY cfg) \<and> gapi la lo (GOOGLE_MAPS_API_KEY cfg) = Inl err
      \<longrightarrow> getLocationFromCoordinates cfg gapi la lo = Inr JNull)
   \<and> (file_metadata e i f = Inr (x, dt, g)
       \<and> (g \<noteq> None \<longrightarrow> truthy (GOOGLE_MAPS_API_KEY (config e)))
       \<and> (g \<noteq> None \<and> dt \<noteq> None \<longrightarrow> truthy (OPENWEATHER_API_KEY (config e)))
       \<and> (\<forall>d. dt = Some d \<longrightarrow> get_time e d \<noteq> NaN)
       \<and> (\<forall>p. storage_upload e i p f = None) \<and> (\<forall>row. db_insert e i row = None)
      \<longrightarrow> (\<exists>row w'. ingest_file e fm n i f w = (None, w') \<and> photos w' = photos w @ [row]
             \<and> ai_processing_status row = js ''pending''
             \<and> (\<forall>c d. g = Some c \<and> dt = Some d
                   \<and> (\<exists>err. weather_api e i (lat c) (lon c)
                              (num_floor (num_div_const (get_time e d) 1000))
                              (OPENWEATHER_API_KEY (config e)) = Inl err)
                  \<longrightarrow> weather_data row = JNull)
             \<and> (g = None \<or> dt = None \<longrightarrow> weather_data row = JNull)
             \<and> (\<forall>c. g = Some c
                   \<and> (\<exists>err. geocode_api e i (lat c) (lon c) (GOOGLE_MAPS_API_KEY (config e)) = Inl err)
                  \<longrightarrow> geo_data row = JNull)))"
proof -
  have a: "truthy (OPENWEATHER_API_KEY cfg) \<and> wapi la lo ts (OPENWEATHER_API_KEY cfg) = Inl err
      \<longrightarrow> getWeatherData cfg wapi la lo ts = Inr JNull"
    using weather_lookup [of cfg wapi la lo ts] by auto
  have b: "truthy (GOOGLE_MAPS_API_KEY cfg) \<and> gapi la lo (GOOGLE_MAPS_API_KEY cfg) = Inl err
      \<longrightarrow> getLocationFromCoordinates cfg gapi la lo = Inr JNull"
    using geocode_lookup [of cfg gapi la lo] by auto
  have c: "file_metadata e i f = Inr (x, dt, g)
       \<and> (g \<noteq> None \<longrightarrow> truthy (GOOGLE_MAPS_API_KEY (config e)))
       \<and> (g \<noteq> None \<and> dt \<noteq> None \<longrightarrow> truthy (OPENWEATHER_API_KEY (config e)))
       \<and> (\<forall>d. dt = Some d \<longrightarrow> get_time e d \<noteq> NaN)
       \<and> (\<forall>p. storage_upload e i p f = None) \<and> (\<forall>row. db_insert e i row = None)
      \<longrightarrow> (\<exists>row w'. ingest_file e fm n i f w = (None, w') \<and> photos w' = photos w @ [row]
             \<and> ai_processing_status row = js ''pending''
             \<and> (\<forall>c d. g = Some c \<and> dt = Some d
                   \<and> (\<exists>err. weather_api e i (lat c) (lon c)
                              (num_floor (num_div_const (get_time e d) 1000))
                              (OPENWEATHER_API_KEY (config e)) = Inl err)
                  \<longrightarrow> weather_data row = JNull)
             \<and> (g = None \<or> dt = None \<longrightarrow> weather_data row = JNull)
             \<and> (\<forall>c. g = Some c
                   \<and> (\<exists>err. geocode_api e i (lat c) (lon c) (GOOGLE_MAPS_API_KEY (config e)) = Inl err)
                  \<longrightarrow> geo_data row = JNull))"
  proof (intro impI, elim conjE)
    assume h: "file_metadata e i f = Inr (x, dt, g)"
      "g \<noteq> None \<longrightarrow> truthy (GOOGLE_MAPS_API_KEY (config e))"
      "g \<noteq> None \<and> dt \<noteq> None \<longrightarrow> truthy (OPENWEATHER_API_KEY (config e))"
      "\<forall>d. dt = Some d \<longrightarrow> get_time e d \<noteq> NaN"
      "\<forall>p. storage_upload e i p f = None" "\<forall>row. db_insert e i row = None"
    from ingest_file_enriched [OF h, of fm n w]
    obtain row w' where r: "ingest_file e fm n i f w = (None, w')" "photos w' = photos w @ [row]"
      "ai_processing_status row = js ''pending''"
      "\<forall>c d. g = Some c \<and> dt = Some d
                 \<and> (\<exists>err. weather_api e i (lat c) (lon c) (num_floor (num_div_const (get_time e d) 1000))
                            (OPENWEATHER_API_KEY (config e)) = Inl err)
                \<longrightarrow> getWeatherData (config e) (weather_api e i) (lat c) (lon c)
                       (num_floor (num_div_const (get_time e d) 1000)) = Inr JNull
                    \<and> weather_data row = JNull"
      "g = None \<or> dt = None \<longrightarrow> weather_data row = JNull"
      "\<forall>c. g = Some c
                 \<and> (\<exists>err. geocode_api e i (lat c) (lon c) (GOOGLE_MAPS_API_KEY (config e)) = Inl err)
                \<longrightarrow> getLocationFromCoordinates (config e) (geocode_api e i) (lat c) (lon c) = Inr JNull
                    \<and> geo_data row = JNull"
      by blast
    have "ingest_file e fm n i f w = (None, w') \<and> photos w' = photos w @ [row]
             \<and> ai_processing_status row = js ''pending''
             \<and> (\<forall>c d. g = Some c \<and> dt = Some d
                   \<and> (\<exists>err. weather_api e i (lat c) (lon c)
                              (num_floor (num_div_const (get_time e d) 1000))
                              (OPENWEATHER_API_KEY (config e)) = Inl err)
                  \<longrightarrow> weather_data row = JNull)
             \<and> (g = None \<or> dt = None \<longrightarrow> weather_data row = JNull)
             \<and> (\<forall>c. g = Some c
                   \<and> (\<exists>err. geocode_api e i (lat c) (lon c) (GOOGLE_MAPS_API_KEY (config e)) = Inl err)
                  \<longrightarrow> geo_data row = JNull)"
      using r by blast
    then show "\<exists>row w'. ingest_file e fm n i f w = (None, w') \<and> photos w' = photos w @ [row]
             \<and> ai_processing_status row = js ''pending''
             \<and> (\<forall>c d. g = Some c \<and> dt = Some d
                   \<and> (\<exists>err. weather_api e i (lat c) (lon c)
                              (num_floor (num_div_const (get_time e d) 1000))
                              (OPENWEATHER_API_KEY (config e)) = Inl err)
                  \<longrightarrow> weather_data row = JNull)
             \<and> (g = None \<or> dt = None \<longrightarrow> weather_data row = JNull)
             \<and> (\<forall>c. g = Some c
                   \<and> (\<exists>err. geocode_api e i (lat c) (lon c) (GOOGLE_MAPS_API_KEY (config e)) = Inl err)
                  \<longrightarrow> geo_data row = JNull)"
      by blast
  qed
  from a b c show ?thesis by blast
qed

lemma gps_only_metadata:
  "file_metadata env_geocode_down i f = Inr (Some exif_gps_only, None, Some coords_london)"
proof -
  have i: "str_includes (js ''51deg 30' 0\" N'') (js ''deg'')" by (simp add: js_def)
  have x: "extractExifData (Inr tags_gps_only) = Inr (Some exif_gps_only)"
    by (simp add: extract_defs tags_gps_only_def london_lat london_lon i try_catch_def bind_exn_def
        exif_gps_only_def)
  have d: "extractDateTime (Some exif_gps_only) = Inr None"
    by (simp add: extractDateTime_def extractDateTime_body_def exif_gps_only_def empty_exif_def
        try_catch_def)
  have c: "extractGPSCoordinates (Some exif_gps_only) = Inr (Some coords_london)"
    by (simp add: extractGPSCoordinates_def extractGPSCoordinates_body_def exif_gps_only_def
        empty_exif_def coords_london_def try_catch_def)
  show ?thesis
    by (simp add: file_metadata_def env_geocode_down_def x d c bind_exn_def)
qed

theorem enrichment_error_gives_null_and_pending_witness:
  "getWeatherData both_keys weather_times_out (lat coords_london) (lon coords_london) (Fin 1710498600)
     = Inr JNull
   \<and> (\<exists>row w'. ingest_file (sample_env both_keys 7) sample_form 1 0 \<lparr>name = js ''a.jpg'', bytes = []\<rparr> world0 = (None, w')
      \<and> photos w' = [row] \<and> weather_data row = JNull \<and> ai_processing_status row = js ''pending'')
   \<and> (\<exists>row w'. ingest_file env_geocode_down sample_form 1 0 \<lparr>name = js ''a.jpg'', bytes = []\<rparr> world0 = (None, w')
      \<and> photos w' = [row] \<and> weather_data row = JNull \<and> geo_data row = JNull
      \<and> ai_processing_status row = js ''pending'')"
proof -
  let ?e = "sample_env both_keys 7"
  let ?f = "\<lparr>name = js ''a.jpg'', bytes = []\<rparr>"
  have kk: "truthy (OPENWEATHER_API_KEY both_keys)"
    "weather_times_out (lat coords_london) (lon coords_london) (Fin 1710498600)
       (OPENWEATHER_API_KEY both_keys) = Inl (Error (js ''timeout of 0ms exceeded''))"
    by (simp_all add: both_keys_def weather_times_out_def js_def)
  have k: "Some coords_london \<noteq> None \<longrightarrow> truthy (GOOGLE_MAPS_API_KEY (config ?e))"
    "Some coords_london \<noteq> None \<and> Some date_london \<noteq> None \<longrightarrow> truthy (OPENWEATHER_API_KEY (config ?e))"
    by (simp_all add: sample_env_def both_keys_def js_def)
  have v: "\<forall>d. Some date_london = Some d \<longrightarrow> get_time ?e d \<noteq> NaN" by (simp add: sample_env_def)
  have u: "\<forall>p. storage_upload ?e 0 p ?f = None"
    and i: "\<forall>row. db_insert ?e 0 row = None"
    by (simp_all add: sample_services)
  have f: "\<exists>err. weather_api ?e 0 (lat coords_london) (lon coords_london)
              (num_floor (num_div_const (get_time ?e date_london) 1000))
              (OPENWEATHER_API_KEY (config ?e)) = Inl err"
    by (simp add: sample_env_def weather_times_out_def)
  note t1 = enrichment_error_gives_null_and_pending
    [of both_keys weather_times_out "lat coords_london" "lon coords_london" "Fin 1710498600"
        "Error (js ''timeout of 0ms exceeded'')" geocode_answers ?e 0 ?f "Some exif_london"
        "Some date_london" "Some coords_london" sample_form 1 world0]
  from t1 kk have zero: "getWeatherData both_keys weather_times_out (lat coords_london) (lon coords_london)
      (Fin 1710498600) = Inr JNull"
    by blast
  from t1 london_metadata [of both_keys 7 0 ?f] k v u i
  obtain row w' where "ingest_file ?e sample_form 1 0 ?f world0 = (None, w')"
    "photos w' = photos world0 @ [row]" "ai_processing_status row = js ''pending''"
    "\<forall>c d. Some coords_london = Some c \<and> Some date_london = Some d
       \<and> (\<exists>err. weather_api ?e 0 (lat c) (lon c) (num_floor (num_div_const (get_time ?e d) 1000))
                  (OPENWEATHER_API_KEY (config ?e)) = Inl err)
      \<longrightarrow> weather_data row = JNull"
    by blast
  with f have first: "\<exists>row w'. ingest_file ?e sample_form 1 0 ?f world0 = (None, w')
      \<and> photos w' = [row] \<and> weather_data row = JNull \<and> ai_processing_status row = js ''pending''"
    by (auto simp add: world0_def)
  let ?e' = env_geocode_down
  have k': "Some coords_london \<noteq> None \<longrightarrow> truthy (GOOGLE_MAPS_API_KEY (config ?e'))"
    "Some coords_london \<noteq> None \<and> (None :: jsdate option) \<noteq> None \<longrightarrow> truthy (OPENWEATHER_API_KEY (config ?e'))"
    by (simp_all add: env_geocode_down_def both_keys_def js_def)
  have v': "\<forall>d. (None :: jsdate option) = Some d \<longrightarrow> get_time ?e' d \<noteq> NaN" by simp
  have u': "\<forall>p. storage_upload ?e' 0 p ?f = None"
    and i': "\<forall>row. db_insert ?e' 0 row = None"
    by (simp_all add: env_geocode_down_def)
  have f': "\<exists>err. geocode_api ?e' 0 (lat coords_london) (lon coords_london)
              (GOOGLE_MAPS_API_KEY (config ?e')) = Inl err"
    by (simp add: env_geocode_down_def geocode_fails_def)
  note t2 = enrichment_error_gives_null_and_pending
    [of both_keys weather_times_out "lat coords_london" "lon coords_london" "Fin 1710498600"
        "Error (js ''timeout of 0ms exceeded'')" geocode_answers ?e' 0 ?f "Some exif_gps_only"
        None "Some coords_london" sample_form 1 world0]
  from t2 gps_only_metadata [of 0 ?f] k' v' u' i'
  obtain row' w'' where "ingest_file ?e' sample_form 1 0 ?f world0 = (None, w'')"
    "photos w'' = photos world0 @ [row']" "ai_processing_status row' = js ''pending''"
    "Some coords_london = None \<or> (None :: jsdate option) = None \<longrightarrow> weather_data row' = JNull"
    "\<forall>c. Some coords_london = Some c
       \<and> (\<exists>err. geocode_api ?e' 0 (lat c) (lon c) (GOOGLE_MAPS_API_KEY (config ?e')) = Inl err)
      \<longrightarrow> geo_data row' = JNull"
    by blast
  with f' have second: "\<exists>row w'. ingest_file ?e' sample_form 1 0 ?f world0 = (None, w')
      \<and> photos w' = [row] \<and> weather_data row = JNull \<and> geo_data row = JNull
      \<and> ai_processing_status row = js ''pending''"
    by (auto simp add: world0_def)
  from zero first second show ?thesis by blast
qed

subsection \<open>Missing credentials\<close>

text \<open>
  C4, as stated. The claim has a missing credential raised when the process starts and
  never at call time. Loading the module with no credential in the environment raises
  nothing, and the calls throw.
\<close>

theorem missing_credential_counterexample:
  "load_external_apis no_credentials = Inr no_keys
   \<and> getWeatherData no_keys weather_answers (JNum (Fin 51.5)) (JNum (Fin 0)) (Fin 1710498600)
       = Inl (Error (js ''Missing OpenWeather API key''))
   \<and> getLocationFromCoordinates no_keys geocode_answers (JNum (Fin 51.5)) (JNum (Fin 0))
       = Inl (Error (js ''Missing Google Maps API key''))"
  by (simp add: load_external_apis_def env_var_def no_credentials_def no_keys_def
      getWeatherData_def getLocationFromCoordinates_def)

text \<open>
  C4, amended. Loading the module never raises, whatever credentials are absent; an
  absent credential leaves a falsy key. With a falsy key every call of \<open>getWeatherData\<close>
  or \<open>getLocationFromCoordinates\<close> throws its \<open>Missing \<dots> API key\<close> error at call
  time, whatever the provider would answer. In \<open>handleSubmit\<close> the throw ends the
  iteration for a file that has coordinates before anything is uploaded or inserted:
  with the weather key missing and a date found the weather error is thrown, and with
  the geocoding key missing one of the two errors is.
\<close>

theorem missing_credential_throws_at_call_time:
  "(\<exists>cfg. load_external_apis process_env = Inr cfg
       \<and> (process_env ''OPENWEATHER_API_KEY'' = None \<longrightarrow> \<not> truthy (OPENWEATHER_API_KEY cfg))
       \<and> (process_env ''GOOGLE_MAPS_API_KEY'' = None \<longrightarrow> \<not> truthy (GOOGLE_MAPS_API_KEY cfg)))
   \<and> (\<not> truthy (OPENWEATHER_API_KEY cfg') \<longrightarrow>
        getWeatherData cfg' wapi la lo ts = Inl (Error (js ''Missing OpenWeather API key'')))
   \<and> (\<not> truthy (GOOGLE_MAPS_API_KEY cfg') \<longrightarrow>
        getLocationFromCoordinates cfg' gapi la lo = Inl (Error (js ''Missing Google Maps API key'')))
   \<and> (file_metadata e i f = Inr (x, Some d, Some c) \<and> \<not> truthy (OPENWEATHER_API_KEY (config e)) \<longrightarrow>
        ingest_file e fm n i f w =
          (Some (Error (js ''Missing OpenWeather API key'')),
           w\<lparr>uploadStatus := Processing (i + 1) n, calls := calls w @ [Load i]\<rparr>))
   \<and> (file_metadata e i f = Inr (x, dt, Some c) \<and> \<not> truthy (GOOGLE_MAPS_API_KEY (config e)) \<longrightarrow>
        (\<exists>m. ingest_file e fm n i f w =
               (Some (Error m), w\<lparr>uploadStatus := Processing (i + 1) n, calls := calls w @ [Load i]\<rparr>)
             \<and> (m = js ''Missing OpenWeather API key'' \<or> m = js ''Missing Google Maps API key'')))"
proof -
  have a: "\<exists>cfg. load_external_apis process_env = Inr cfg
       \<and> (process_env ''OPENWEATHER_API_KEY'' = None \<longrightarrow> \<not> truthy (OPENWEATHER_API_KEY cfg))
       \<and> (process_env ''GOOGLE_MAPS_API_KEY'' = None \<longrightarrow> \<not> truthy (GOOGLE_MAPS_API_KEY cfg))"
    by (simp add: load_external_apis_def env_var_def)
  have b: "\<not> truthy (OPENWEATHER_API_KEY cfg') \<longrightarrow>
        getWeatherData cfg' wapi la lo ts = Inl (Error (js ''Missing OpenWeather API key''))"
    by (simp add: getWeatherData_unkeyed)
  have c: "\<not> truthy (GOOGLE_MAPS_API_KEY cfg') \<longrightarrow>
        getLocationFromCoordinates cfg' gapi la lo = Inl (Error (js ''Missing Google Maps API key''))"
    by (simp add: getLocationFromCoordinates_unkeyed)
  have d: "file_metadata e i f = Inr (x, Some d, Some c) \<and> \<not> truthy (OPENWEATHER_API_KEY (config e)) \<longrightarrow>
        ingest_file e fm n i f w =
          (Some (Error (js ''Missing OpenWeather API key'')),
           w\<lparr>uploadStatus := Processing (i + 1) n, calls := calls w @ [Load i]\<rparr>)"
    by (simp add: ingest_file_def enrich_def getWeatherData_unkeyed bind_exn_def Let_def)
  have e: "file_metadata e i f = Inr (x, dt, Some c) \<and> \<not> truthy (GOOGLE_MAPS_API_KEY (config e)) \<longrightarrow>
        (\<exists>m. ingest_file e fm n i f w =
               (Some (Error m), w\<lparr>uploadStatus := Processing (i + 1) n, calls := calls w @ [Load i]\<rparr>)
             \<and> (m = js ''Missing OpenWeather API key'' \<or> m = js ''Missing Google Maps API key''))"
  proof (intro impI, elim conjE)
    assume md: "file_metadata e i f = Inr (x, dt, Some c)"
      and k: "\<not> truthy (GOOGLE_MAPS_API_KEY (config e))"
    have "\<exists>m. enrich e i (Some c) dt = Inl (Error m)
            \<and> (m = js ''Missing OpenWeather API key'' \<or> m = js ''Missing Google Maps API key'')"
    proof (cases dt)
      case None
      then show ?thesis
        by (simp add: enrich_def getLocationFromCoordinates_unkeyed [OF k] bind_exn_def)
    next
      case (Some d')
      show ?thesis
      proof (cases "truthy (OPENWEATHER_API_KEY (config e))")
        case False
        with Some show ?thesis
          by (simp add: enrich_def getWeatherData_unkeyed bind_exn_def)
      next
        case True
        show ?thesis
          by (cases "weather_api e i (lat c) (lon c) (num_floor (num_div_const (get_time e d') 1000))
                       (OPENWEATHER_API_KEY (config e))")
            (simp_all add: Some enrich_def getWeatherData_keyed [OF True]
              getLocationFromCoordinates_unkeyed [OF k] bind_exn_def)
      qed
    qed
    then obtain m where "enrich e i (Some c) dt = Inl (Error m)"
      "m = js ''Missing OpenWeather API key'' \<or> m = js ''Missing Google Maps API key''" by blast
    with md show "\<exists>m. ingest_file e fm n i f w =
               (Some (Error m), w\<lparr>uploadStatus := Processing (i + 1) n, calls := calls w @ [Load i]\<rparr>)
             \<and> (m = js ''Missing OpenWeather API key'' \<or> m = js ''Missing Google Maps API key'')"
      by (simp add: ingest_file_def Let_def)
  qed
  from a b c d e show ?thesis by blast
qed

theorem missing_credential_throws_at_call_time_witness:
  "load_external_apis no_credentials = Inr no_keys
   \<and> ingest_file (sample_env no_keys 7) sample_form 1 0 \<lparr>name = js ''a.jpg'', bytes = []\<rparr> world0
       = (Some (Error (js ''Missing OpenWeather API key'')),
          world0\<lparr>uploadStatus := Processing (0 + 1) 1, calls := calls world0 @ [Load 0]\<rparr>)"
proof -
  have k: "\<not> truthy (OPENWEATHER_API_KEY (config (sample_env no_keys 7)))"
    by (simp add: sample_env_def no_keys_def)
  have l: "load_external_apis no_credentials = Inr no_keys"
    by (simp add: load_external_apis_def env_var_def no_credentials_def no_keys_def)
  from missing_credential_throws_at_call_time
    [of no_credentials "config (sample_env no_keys 7)" weather_answers JNull JNull NaN geocode_answers
        "sample_env no_keys 7" 0 "\<lparr>name = js ''a.jpg'', bytes = []\<rparr>" "Some exif_london" date_london
        coords_london sample_form 1 world0 "Some date_london"]
    k london_metadata [of no_keys 7 0 "\<lparr>name = js ''a.jpg'', bytes = []\<rparr>"] l
  show ?thesis by blast
qed

end
